theory Spec2Isabelle
  imports Main "HOL-Library.AList" "HOL-Library.Sublist" "HOL-Library.Char_ord"
    "HOL-Library.List_Lexorder" "HOL-Library.Multiset"
begin

section \<open>Errors, the world, and asynchronous functions\<close>

text \<open>
  Every \<^verbatim>\<open>async\<close> function of the backend is modelled as a function from the world to a
  result and a new world. A rejected promise (a thrown exception) is the result \<open>Inl e\<close>, a
  resolved one is \<open>Inr x\<close>; \<open>try_catch\<close> is the source's \<^verbatim>\<open>try { ... } catch (error) { ... }\<close>.

  The persistent store (MongoDB) is assumed to answer: its network failures are not part of
  the model. Redis can fail at every command, see \<open>redis_cmd\<close>.
\<close>

datatype error =
    RedisError                \<comment> \<open>a Redis command was rejected by the client or the server\<close>
  | Error string              \<comment> \<open>a plain \<^verbatim>\<open>Error(message)\<close>\<close>
  | NotFoundError string      \<comment> \<open>\<^verbatim>\<open>NotFoundError(resource)\<close>\<close>
  | ValidationError string    \<comment> \<open>\<^verbatim>\<open>ValidationError(message, errors)\<close>\<close>
  | CastError                 \<comment> \<open>a string that is no ObjectId reached the driver\<close>
  | SchemaError string        \<comment> \<open>a document rejected by its Mongoose schema or save hook\<close>

fun error_message :: "error \<Rightarrow> string" where
  "error_message RedisError = ''Redis command failed''"
| "error_message (Error m) = m"
| "error_message (NotFoundError r) = r @ '' not found''"
| "error_message (ValidationError m) = m"
| "error_message CastError = ''Cast to ObjectId failed''"
| "error_message (SchemaError m) = m"

type_synonym ObjectId = nat

datatype level = LError | LWarn

datatype presence_status = Online | Offline

record UserPresence =
  userId :: string
  status :: presence_status
  lastSeen :: nat
  socketId :: "string option"

datatype post_status = Draft | Published | Archived

record post =
  pid :: ObjectId
  author :: ObjectId
  title :: string
  content :: string
  tags :: "string list"
  likes :: "ObjectId list"
  bookmarks :: "ObjectId list"
  commentCount :: nat
  viewCount :: nat
  pstatus :: post_status
  createdAt :: nat

record PaginatedPosts =
  page_posts :: "post list"
  total :: nat
  page :: nat
  totalPages :: nat
  hasMore :: bool

text \<open>
  What Redis holds under a string key is the JSON text of one of the values below;
  \<^verbatim>\<open>JSON.parse(JSON.stringify v)\<close> gives \<open>v\<close> back, so the model stores the value itself.
  \<^verbatim>\<open>cacheService.get<T>\<close> casts unchecked, so a cache-aside read returns a \<open>snapshot\<close>.
\<close>

datatype snapshot =
    PresenceSnap UserPresence
  | PostSnap post
  | PageSnap PaginatedPosts

datatype NotificationType = Like | Comment | Mention | IssueAssigned | Message

datatype ResourceType = RPost | RIssue | RComment | RMessage

record notification =
  nid :: ObjectId
  recipient :: ObjectId
  ntype :: NotificationType
  actor :: ObjectId
  resource :: "(ResourceType \<times> ObjectId) option"
  message :: string
  isRead :: bool
  n_createdAt :: nat

datatype chat_type = Direct | Group

record chat =
  cid :: ObjectId
  ctype :: chat_type
  cname :: "string option"
  participants :: "ObjectId list"
  lastMessage :: "ObjectId option"

record msg =
  mid :: ObjectId
  m_chat :: ObjectId
  sender :: ObjectId
  m_content :: string
  readBy :: "ObjectId list"
  m_createdAt :: nat

record comment =
  cmid :: ObjectId
  c_author :: ObjectId
  c_post :: ObjectId
  c_content :: string
  parentComment :: "ObjectId option"
  c_createdAt :: nat

datatype payload =
    MessageData msg
  | NotificationData notification
  | PresenceData string presence_status nat
  | TypingData string string "string option"

record PubSubMessage =
  event :: string
  data :: payload
  room :: "string option"
  ps_userId :: "string option"

record world =
  now :: nat
  redis_client :: bool
  redis_down :: "nat \<Rightarrow> bool"
  redis_calls :: nat
  kv :: "(string \<times> snapshot \<times> nat option) list"
  online :: "string list"
  published :: "(string \<times> PubSubMessage) list"
  io_server :: bool
  emitted :: "(string \<times> string \<times> payload) list"
  logs :: "(level \<times> string) list"
  next_oid :: ObjectId
  posts :: "post list"
  comments :: "comment list"
  notifications :: "notification list"
  chats :: "chat list"
  messages :: "msg list"

text \<open>
  \<open>now\<close> is the clock in seconds. \<open>redis_client\<close> says whether \<^verbatim>\<open>connectRedis\<close> has set the
  module-level clients. \<open>redis_down n\<close> says whether the \<open>n\<close>-th Redis command issued by this
  process is rejected, and \<open>redis_calls\<close> counts the commands issued so far. \<open>kv\<close> is the
  Redis keyspace with the expiry time of each key, \<open>online\<close> the set \<^verbatim>\<open>presence:online\<close>,
  \<open>published\<close> the messages put on the bus with their channels. \<open>io_server\<close> says whether
  \<^verbatim>\<open>initializeSocketIO\<close> has run, and \<open>emitted\<close> lists what this instance sent to its own
  sockets as (room, event, data). \<open>logs\<close> keeps the \<^verbatim>\<open>logger.error\<close> and \<^verbatim>\<open>logger.warn\<close>
  calls; debug and info lines are left out. The remaining fields are the collections of the
  document store and the source of fresh ObjectIds.
\<close>

type_synonym 'a async = "world \<Rightarrow> (error + 'a) \<times> world"

definition resolve :: "'a \<Rightarrow> 'a async" where
  "resolve x w = (Inr x, w)"

definition reject :: "error \<Rightarrow> 'a async" where
  "reject e w = (Inl e, w)"

definition await :: "'a async \<Rightarrow> ('a \<Rightarrow> 'b async) \<Rightarrow> 'b async" where
  "await m f w = (case m w of (Inl e, w') \<Rightarrow> (Inl e, w') | (Inr x, w') \<Rightarrow> f x w')"

definition try_catch :: "'a async \<Rightarrow> (error \<Rightarrow> 'a async) \<Rightarrow> 'a async" where
  "try_catch m h w = (case m w of (Inl e, w') \<Rightarrow> h e w' | (Inr x, w') \<Rightarrow> (Inr x, w'))"

definition logger_error :: "string \<Rightarrow> unit async" where
  "logger_error m w = (Inr (), w\<lparr>logs := logs w @ [(LError, m)]\<rparr>)"

definition logger_warn :: "string \<Rightarrow> unit async" where
  "logger_warn m w = (Inr (), w\<lparr>logs := logs w @ [(LWarn, m)]\<rparr>)"

section \<open>Redis\<close>

text \<open>
  \<^verbatim>\<open>getRedisClient\<close> of config/redis.ts throws when the client was never created. A command
  sent through the client is counted and is rejected when \<open>redis_down\<close> says so; otherwise it
  runs on the keyspace.
\<close>

definition getRedisClient :: "unit async" where
  "getRedisClient w =
     (if redis_client w then (Inr (), w) else (Inl (Error ''Redis client not initialized''), w))"

definition redis_cmd :: "(world \<Rightarrow> 'a \<times> world) \<Rightarrow> 'a async" where
  "redis_cmd op w =
     (let w1 = w\<lparr>redis_calls := Suc (redis_calls w)\<rparr> in
      if redis_down w (redis_calls w) then (Inl RedisError, w1)
      else (case op w1 of (r, w2) \<Rightarrow> (Inr r, w2)))"

definition live :: "nat \<Rightarrow> nat option \<Rightarrow> bool" where
  "live t expiry = (case expiry of None \<Rightarrow> True | Some e \<Rightarrow> t < e)"

definition lookup_live :: "world \<Rightarrow> string \<Rightarrow> snapshot option" where
  "lookup_live w k =
     (case map_of (kv w) k of
        None \<Rightarrow> None
      | Some (v, expiry) \<Rightarrow> if live (now w) expiry then Some v else None)"

definition redis_get :: "string \<Rightarrow> world \<Rightarrow> snapshot option \<times> world" where
  "redis_get k w = (lookup_live w k, w)"

definition redis_setEx :: "string \<Rightarrow> nat \<Rightarrow> snapshot \<Rightarrow> world \<Rightarrow> unit \<times> world" where
  "redis_setEx k ttl v w = ((), w\<lparr>kv := AList.update k (v, Some (now w + ttl)) (kv w)\<rparr>)"

definition redis_set :: "string \<Rightarrow> snapshot \<Rightarrow> world \<Rightarrow> unit \<times> world" where
  "redis_set k v w = ((), w\<lparr>kv := AList.update k (v, None) (kv w)\<rparr>)"

definition redis_del :: "string list \<Rightarrow> world \<Rightarrow> unit \<times> world" where
  "redis_del ks w = ((), w\<lparr>kv := filter (\<lambda>(k, _). k \<notin> set ks) (kv w)\<rparr>)"

definition redis_exists :: "string \<Rightarrow> world \<Rightarrow> bool \<times> world" where
  "redis_exists k w = (lookup_live w k \<noteq> None, w)"

definition redis_sAdd :: "string \<Rightarrow> world \<Rightarrow> unit \<times> world" where
  "redis_sAdd m w = ((), w\<lparr>online := (if m \<in> set (online w) then online w else online w @ [m])\<rparr>)"

definition redis_sRem :: "string \<Rightarrow> world \<Rightarrow> unit \<times> world" where
  "redis_sRem m w = ((), w\<lparr>online := filter (\<lambda>x. x \<noteq> m) (online w)\<rparr>)"

definition redis_sMembers :: "world \<Rightarrow> string list \<times> world" where
  "redis_sMembers w = (online w, w)"

definition redis_publish :: "string \<Rightarrow> PubSubMessage \<Rightarrow> world \<Rightarrow> unit \<times> world" where
  "redis_publish channel m w = ((), w\<lparr>published := published w @ [(channel, m)]\<rparr>)"

text \<open>
  Redis glob patterns: \<open>*\<close> stands for any run of characters and \<open>?\<close> for one character;
  every other character of the patterns this backend uses stands for itself. The cursor loop
  of \<^verbatim>\<open>scanIterator\<close> is one command that yields the live keys matching the pattern.
\<close>

fun glob_match :: "string \<Rightarrow> string \<Rightarrow> bool" where
  "glob_match [] s = (s = [])"
| "glob_match (p # ps) [] = (p = CHR ''*'' \<and> glob_match ps [])"
| "glob_match (p # ps) (c # cs) =
     (if p = CHR ''*'' then glob_match ps (c # cs) \<or> glob_match (p # ps) cs
      else (p = CHR ''?'' \<or> p = c) \<and> glob_match ps cs)"

definition redis_scan :: "string \<Rightarrow> world \<Rightarrow> string list \<times> world" where
  "redis_scan pattern w =
     (map fst (filter (\<lambda>(k, v, expiry). live (now w) expiry \<and> glob_match pattern k) (kv w)), w)"

section \<open>Cache service (shared/utils/cache.ts)\<close>

definition CacheTTL_POSTS :: nat where "CacheTTL_POSTS = 2 * 60"
definition CacheTTL_SEARCH :: nat where "CacheTTL_SEARCH = 1 * 60"

definition CachePrefix_POST :: string where "CachePrefix_POST = ''post''"
definition CachePrefix_POST_LIST :: string where "CachePrefix_POST_LIST = ''post:list''"
definition CachePrefix_SEARCH :: string where "CachePrefix_SEARCH = ''search''"

definition CacheService_get :: "string \<Rightarrow> snapshot option async" where
  "CacheService_get key =
     try_catch
       (await getRedisClient (\<lambda>_.
        await (redis_cmd (redis_get key)) (\<lambda>value.
        case value of None \<Rightarrow> resolve None | Some v \<Rightarrow> resolve (Some v))))
       (\<lambda>e. await (logger_error ''Cache get error (graceful degradation):'') (\<lambda>_. resolve None))"

definition CacheService_set :: "string \<Rightarrow> snapshot \<Rightarrow> nat option \<Rightarrow> unit async" where
  "CacheService_set key v ttl =
     try_catch
       (await getRedisClient (\<lambda>_.
        if ttl \<noteq> None \<and> ttl \<noteq> Some 0
        then redis_cmd (redis_setEx key (the ttl) v)
        else redis_cmd (redis_set key v)))
       (\<lambda>e. logger_error ''Cache set error (graceful degradation):'')"

definition CacheService_delete :: "string \<Rightarrow> unit async" where
  "CacheService_delete key =
     try_catch
       (await getRedisClient (\<lambda>_. redis_cmd (redis_del [key])))
       (\<lambda>e. logger_error ''Cache delete error (graceful degradation):'')"

definition invalidatePattern :: "string \<Rightarrow> unit async" where
  "invalidatePattern pattern =
     try_catch
       (await getRedisClient (\<lambda>_.
        await (redis_cmd (redis_scan pattern)) (\<lambda>keys.
        if length keys > 0 then redis_cmd (redis_del keys) else resolve ())))
       (\<lambda>e. logger_error ''Cache invalidate pattern error (graceful degradation):'')"

definition CacheKeys_post :: "string \<Rightarrow> string" where
  "CacheKeys_post postId = CachePrefix_POST @ '':'' @ postId"

definition postListPattern :: string where
  "postListPattern = CachePrefix_POST_LIST @ ''*''"

definition searchPattern :: string where
  "searchPattern = CachePrefix_SEARCH @ ''*''"

section \<open>Pub/sub backplane (socket/pubsub.ts)\<close>

definition getRedisPublisher :: "unit async" where
  "getRedisPublisher w =
     (if redis_client w then (Inr (), w) else (Inl (Error ''Redis publisher not initialized''), w))"

definition publishMessage :: "string \<Rightarrow> PubSubMessage \<Rightarrow> unit async" where
  "publishMessage channel m =
     try_catch
       (await getRedisPublisher (\<lambda>_. redis_cmd (redis_publish channel m)))
       (\<lambda>e. await (logger_error ''Failed to publish message to Redis'') (\<lambda>_. reject e))"

definition broadcastEvent :: "string \<Rightarrow> payload \<Rightarrow> unit async" where
  "broadcastEvent ev d =
     try_catch
       (publishMessage ''socket:broadcast'' \<lparr>event = ev, data = d, room = None, ps_userId = None\<rparr>)
       (\<lambda>e. logger_error ''Failed to broadcast event'')"

definition emitToRoomAcrossInstances :: "string \<Rightarrow> string \<Rightarrow> payload \<Rightarrow> unit async" where
  "emitToRoomAcrossInstances rm ev d =
     try_catch
       (publishMessage ''socket:room'' \<lparr>event = ev, data = d, room = Some rm, ps_userId = None\<rparr>)
       (\<lambda>e. logger_error ''Failed to emit to room across instances'')"

definition emitToUserAcrossInstances :: "string \<Rightarrow> string \<Rightarrow> payload \<Rightarrow> unit async" where
  "emitToUserAcrossInstances uid ev d =
     try_catch
       (publishMessage ''socket:user'' \<lparr>event = ev, data = d, room = None, ps_userId = Some uid\<rparr>)
       (\<lambda>e. logger_error ''Failed to emit to user across instances'')"

text \<open>
  \<^verbatim>\<open>getIO\<close> of socket/socket.ts throws until the Socket.IO server exists;
  \<^verbatim>\<open>io.to(room).emit(event, data)\<close> reaches the sockets of this instance only (no adapter
  is installed on the server), and \<^verbatim>\<open>io.emit\<close> reaches all of them, written here as the
  room \<open>''*''\<close>.
\<close>

definition getIO :: "unit async" where
  "getIO w =
     (if io_server w then (Inr (), w)
      else (Inl (Error ''Socket.IO not initialized. Call initializeSocketIO first.''), w))"

definition io_to_emit :: "string \<Rightarrow> string \<Rightarrow> payload \<Rightarrow> unit async" where
  "io_to_emit rm ev d w = (Inr (), w\<lparr>emitted := emitted w @ [(rm, ev, d)]\<rparr>)"

text \<open>
  The three subscriptions of \<^verbatim>\<open>initializePubSub\<close>: what an instance does with a message that
  arrives on a channel. A handler that throws is caught by the subscription wrapper of
  \<^verbatim>\<open>subscribeToChannel\<close>, which logs and drops the message.
\<close>

definition subscription :: "PubSubMessage async \<Rightarrow> (PubSubMessage \<Rightarrow> unit async) \<Rightarrow> unit async" where
  "subscription parsed handler =
     try_catch (await parsed handler)
       (\<lambda>e. logger_error ''Failed to parse Redis pub/sub message'')"

definition on_broadcast :: "PubSubMessage \<Rightarrow> unit async" where
  "on_broadcast m = await getIO (\<lambda>_. io_to_emit ''*'' (event m) (data m))"

text \<open>
  A string that may be \<^verbatim>\<open>undefined\<close> is truthy when it is present and not empty: a test
  such as \<^verbatim>\<open>!message.room\<close> holds for the missing and for the empty string.
\<close>

definition truthy :: "string option \<Rightarrow> bool" where
  "truthy s = (s \<noteq> None \<and> s \<noteq> Some [])"

definition on_room :: "PubSubMessage \<Rightarrow> unit async" where
  "on_room m =
     (if \<not> truthy (room m) then logger_warn ''Received room message without room identifier''
      else await getIO (\<lambda>_. io_to_emit (the (room m)) (event m) (data m)))"

definition on_user :: "PubSubMessage \<Rightarrow> unit async" where
  "on_user m =
     (if \<not> truthy (ps_userId m) then logger_warn ''Received user message without userId''
      else await getIO (\<lambda>_. io_to_emit (''user:'' @ the (ps_userId m)) (event m) (data m)))"

definition receive :: "string \<times> PubSubMessage \<Rightarrow> world \<Rightarrow> world" where
  "receive cm w =
     (let (channel, m) = cm in
      if channel = ''socket:broadcast'' then snd (subscription (resolve m) on_broadcast w)
      else if channel = ''socket:room'' then snd (subscription (resolve m) on_room w)
      else if channel = ''socket:user'' then snd (subscription (resolve m) on_user w)
      else w)"

text \<open>An instance that has subscribed at boot receives every message put on the bus.\<close>

definition deliver :: "(string \<times> PubSubMessage) list \<Rightarrow> world \<Rightarrow> world" where
  "deliver ms w = foldl (\<lambda>w' cm. receive cm w') w ms"

section \<open>Presence tracker (modules/presence/presence.service.ts)\<close>

definition PRESENCE_KEY_PREFIX :: string where "PRESENCE_KEY_PREFIX = ''presence:user:''"
definition PRESENCE_TTL :: nat where "PRESENCE_TTL = 300"

definition new_Date :: "nat async" where
  "new_Date w = (Inr (now w), w)"

definition broadcastPresenceUpdate :: "string \<Rightarrow> presence_status \<Rightarrow> unit async" where
  "broadcastPresenceUpdate uid st =
     try_catch
       (await new_Date (\<lambda>t.
        emitToUserAcrossInstances uid ''presence:update'' (PresenceData uid st t)))
       (\<lambda>e. logger_error ''Failed to broadcast presence update'')"

definition setUserOnline :: "string \<Rightarrow> string \<Rightarrow> unit async" where
  "setUserOnline uid sock =
     try_catch
       (await getRedisClient (\<lambda>_.
        await new_Date (\<lambda>t.
        let presenceData = \<lparr>userId = uid, status = Online, lastSeen = t, socketId = Some sock\<rparr> in
        await (redis_cmd (redis_setEx (PRESENCE_KEY_PREFIX @ uid) PRESENCE_TTL (PresenceSnap presenceData))) (\<lambda>_.
        await (redis_cmd (redis_sAdd uid)) (\<lambda>_.
        broadcastPresenceUpdate uid Online)))))
       (\<lambda>e. await (logger_error ''Failed to set user online'') (\<lambda>_. reject e))"

definition setUserOffline :: "string \<Rightarrow> unit async" where
  "setUserOffline uid =
     try_catch
       (await getRedisClient (\<lambda>_.
        await new_Date (\<lambda>t.
        let presenceData = \<lparr>userId = uid, status = Offline, lastSeen = t, socketId = None\<rparr> in
        await (redis_cmd (redis_setEx (PRESENCE_KEY_PREFIX @ uid) PRESENCE_TTL (PresenceSnap presenceData))) (\<lambda>_.
        await (redis_cmd (redis_sRem uid)) (\<lambda>_.
        broadcastPresenceUpdate uid Offline)))))
       (\<lambda>e. await (logger_error ''Failed to set user offline'') (\<lambda>_. reject e))"

definition getUserPresence :: "string \<Rightarrow> snapshot option async" where
  "getUserPresence uid =
     try_catch
       (await getRedisClient (\<lambda>_.
        await (redis_cmd (redis_get (PRESENCE_KEY_PREFIX @ uid))) (\<lambda>presenceString.
        case presenceString of
          None \<Rightarrow>
            await new_Date (\<lambda>t.
            resolve (Some (PresenceSnap \<lparr>userId = uid, status = Offline, lastSeen = t, socketId = None\<rparr>)))
        | Some presence \<Rightarrow> resolve (Some presence))))
       (\<lambda>e. await (logger_error ''Failed to get user presence'') (\<lambda>_. resolve None))"

text \<open>
  \<^verbatim>\<open>presence.lastSeen = new Date()\<close> sets a field of the parsed object; only a presence
  record is ever stored under a presence key.
\<close>

fun touch :: "nat \<Rightarrow> snapshot \<Rightarrow> snapshot" where
  "touch t (PresenceSnap p) = PresenceSnap (p\<lparr>lastSeen := t\<rparr>)"
| "touch t s = s"

definition refreshUserPresence :: "string \<Rightarrow> unit async" where
  "refreshUserPresence uid =
     try_catch
       (await getRedisClient (\<lambda>_.
        await (redis_cmd (redis_get (PRESENCE_KEY_PREFIX @ uid))) (\<lambda>presenceString.
        case presenceString of
          None \<Rightarrow> resolve ()
        | Some presence \<Rightarrow>
            await new_Date (\<lambda>t.
            redis_cmd (redis_setEx (PRESENCE_KEY_PREFIX @ uid) PRESENCE_TTL (touch t presence))))))
       (\<lambda>e. logger_error ''Failed to refresh user presence'')"

fun cleanup_loop :: "string list \<Rightarrow> nat \<Rightarrow> nat async" where
  "cleanup_loop [] cleanedCount = resolve cleanedCount"
| "cleanup_loop (uid # rest) cleanedCount =
     await (redis_cmd (redis_exists (PRESENCE_KEY_PREFIX @ uid))) (\<lambda>exists.
     if \<not> exists
     then await (redis_cmd (redis_sRem uid)) (\<lambda>_. cleanup_loop rest (Suc cleanedCount))
     else cleanup_loop rest cleanedCount)"

definition cleanupStalePresence :: "unit async" where
  "cleanupStalePresence =
     try_catch
       (await getRedisClient (\<lambda>_.
        await (redis_cmd redis_sMembers) (\<lambda>onlineUsers.
        await (cleanup_loop onlineUsers 0) (\<lambda>cleanedCount. resolve ()))))
       (\<lambda>e. logger_error ''Failed to cleanup stale presence'')"

section \<open>ObjectIds and strings\<close>

text \<open>
  \<^verbatim>\<open>mongoose.Types.ObjectId\<close> belongs to the driver, not to this repository. Every function that
  parses an id takes the parser as its first argument \<open>oid\<close>: \<open>oid s = None\<close> where
  \<^verbatim>\<open>ObjectId.isValid(s)\<close> is false and \<^verbatim>\<open>new ObjectId(s)\<close> throws, and \<open>oid s = Some i\<close> where
  \<open>s\<close> denotes the id \<open>i\<close>. Two strings may denote the same id. A new document takes the id
  \<open>next_oid\<close>. \<^verbatim>\<open>populate\<close> and \<^verbatim>\<open>$lookup\<close> of user documents are not modelled: results carry
  the ids.
\<close>

definition fresh_oid :: "ObjectId async" where
  "fresh_oid w = (Inr (next_oid w), w\<lparr>next_oid := Suc (next_oid w)\<rparr>)"

text \<open>
  A character of a model string is a code unit between U+0000 and U+00FF, not a byte of an
  encoding. \<^verbatim>\<open>String.prototype.trim\<close>, and with it the \<^verbatim>\<open>trim: true\<close> of a Mongoose schema,
  removes the white space and the line terminators of ECMAScript from both ends. In the range
  of the model these are U+0009 to U+000D, U+0020 and the no-break space U+00A0 (U+0085 is
  not among them). The white space above U+00FF (U+1680, U+2000 to U+200A, U+2028, U+2029,
  U+202F, U+205F, U+3000, U+FEFF) has no character in the model.
\<close>

definition is_space :: "char \<Rightarrow> bool" where
  "is_space c =
     (c \<in> set [CHR 0x09, CHR 0x0A, CHR 0x0B, CHR 0x0C, CHR 0x0D, CHR 0x20, CHR 0xA0])"

definition trim :: "string \<Rightarrow> string" where
  "trim s = rev (dropWhile is_space (rev (dropWhile is_space s)))"

fun join :: "string \<Rightarrow> string list \<Rightarrow> string" where
  "join sep [] = []"
| "join sep [x] = x"
| "join sep (x # y # ys) = x @ sep @ join sep (y # ys)"

fun show_nat :: "nat \<Rightarrow> string" where
  "show_nat n =
     (if n < 10 then [''0123456789'' ! n]
      else show_nat (n div 10) @ [''0123456789'' ! (n mod 10)])"

section \<open>Notification fan-out (modules/notifications, socket/notificationHandlers.ts)\<close>

record CreateNotificationDTO =
  recipientId :: string
  dto_type :: NotificationType
  actorId :: string
  dto_message :: string
  dto_resource :: "(ResourceType \<times> string) option"

record NotificationFilters =
  f_isRead :: "bool option"
  f_type :: "NotificationType option"

definition emitNotificationToUser :: "string \<Rightarrow> notification \<Rightarrow> unit async" where
  "emitNotificationToUser uid n =
     try_catch
       (await getIO (\<lambda>_. io_to_emit (''notifications:'' @ uid) ''notification:new'' (NotificationData n)))
       (\<lambda>e. logger_error ''Failed to emit notification to user'')"

definition NotificationService_emitNotificationToUser :: "string \<Rightarrow> notification \<Rightarrow> unit async" where
  "NotificationService_emitNotificationToUser uid n =
     try_catch (emitNotificationToUser uid n)
       (\<lambda>e. logger_error ''Failed to emit notification via Socket.IO'')"

text \<open>
  \<^verbatim>\<open>new Notification({...})\<close> followed by \<^verbatim>\<open>save()\<close>: the schema casts the ids and requires a
  message.
\<close>

definition Notification_save ::
  "(string \<Rightarrow> ObjectId option) \<Rightarrow> CreateNotificationDTO \<Rightarrow> notification async" where
  "Notification_save oid d =
     (case (oid (recipientId d), oid (actorId d)) of
        (Some r, Some a) \<Rightarrow>
          (case (case dto_resource d of
                   None \<Rightarrow> Some None
                 | Some (t, i) \<Rightarrow> (case oid i of None \<Rightarrow> None | Some j \<Rightarrow> Some (Some (t, j)))) of
             None \<Rightarrow> reject CastError
           | Some res \<Rightarrow>
               if dto_message d = [] then reject (SchemaError ''Path `message` is required.'')
               else await fresh_oid (\<lambda>i. await new_Date (\<lambda>t.
                 let n = \<lparr>nid = i, recipient = r, ntype = dto_type d, actor = a, resource = res,
                          message = dto_message d, isRead = False, n_createdAt = t\<rparr>
                 in (\<lambda>w. (Inr n, w\<lparr>notifications := notifications w @ [n]\<rparr>)))))
      | _ \<Rightarrow> reject CastError)"

definition createNotification ::
  "(string \<Rightarrow> ObjectId option) \<Rightarrow> CreateNotificationDTO \<Rightarrow> notification option async" where
  "createNotification oid d =
     try_catch
       (if oid (recipientId d) = None then reject (ValidationError ''Invalid recipient ID'')
        else if oid (actorId d) = None then reject (ValidationError ''Invalid actor ID'')
        else if recipientId d = actorId d then resolve None
        else if (case dto_resource d of None \<Rightarrow> False | Some (t, i) \<Rightarrow> i \<noteq> [] \<and> oid i = None)
        then reject (ValidationError ''Invalid resource ID'')
        else
          await (Notification_save oid d) (\<lambda>n.
          await (NotificationService_emitNotificationToUser (recipientId d) n) (\<lambda>_.
          resolve (Some n))))
       (\<lambda>e. await (logger_error ''Error creating notification:'') (\<lambda>_. reject e))"

definition matches_filters :: "ObjectId \<Rightarrow> NotificationFilters \<Rightarrow> notification \<Rightarrow> bool" where
  "matches_filters uid f n =
     (recipient n = uid
      \<and> (case f_isRead f of None \<Rightarrow> True | Some b \<Rightarrow> isRead n = b)
      \<and> (case f_type f of None \<Rightarrow> True | Some t \<Rightarrow> ntype n = t))"

text \<open>
  \<^verbatim>\<open>.sort({ createdAt: -1 })\<close>: newest first. The store does not fix the order of documents
  with equal timestamps; the model keeps them in insertion order.
\<close>

definition sort_desc :: "('a \<Rightarrow> nat) \<Rightarrow> 'a list \<Rightarrow> 'a list" where
  "sort_desc f xs = sort_key (\<lambda>x. - int (f x)) xs"

definition getUserNotifications ::
  "(string \<Rightarrow> ObjectId option) \<Rightarrow> string \<Rightarrow> NotificationFilters \<Rightarrow> notification list async" where
  "getUserNotifications oid uid f =
     (case oid uid of
        None \<Rightarrow> reject (ValidationError ''Invalid user ID'')
      | Some u \<Rightarrow>
          (\<lambda>w. (Inr (take 50 (sort_desc n_createdAt (filter (matches_filters u f) (notifications w)))), w)))"

section \<open>Cache keys of the post service (shared/utils/cache.ts)\<close>

record PostFilters =
  f_author :: "string option"
  f_tags :: "string list option"
  f_status :: "post_status option"

record Pagination =
  pg_page :: nat
  pg_limit :: nat

fun status_string :: "post_status \<Rightarrow> string" where
  "status_string Draft = ''draft''"
| "status_string Published = ''published''"
| "status_string Archived = ''archived''"

datatype sort_by = ByDate | ByPopularity | ByRelevance

fun sort_string :: "sort_by \<Rightarrow> string" where
  "sort_string ByDate = ''date''"
| "sort_string ByPopularity = ''popularity''"
| "sort_string ByRelevance = ''relevance''"

definition has_tags :: "string list option \<Rightarrow> bool" where
  "has_tags ts = (case ts of None \<Rightarrow> False | Some l \<Rightarrow> length l > 0)"

definition CacheKeys_postList :: "PostFilters \<Rightarrow> nat \<Rightarrow> nat \<Rightarrow> string" where
  "CacheKeys_postList f pg lim =
     join '':''
       ([CachePrefix_POST_LIST]
        @ (if truthy (f_author f) then [''author:'' @ the (f_author f)] else [])
        @ (if has_tags (f_tags f) then [''tags:'' @ join '','' (sort (the (f_tags f)))] else [])
        @ (case f_status f of None \<Rightarrow> [] | Some st \<Rightarrow> [''status:'' @ status_string st])
        @ (if pg \<noteq> 0 then [''page:'' @ show_nat pg] else [])
        @ (if lim \<noteq> 0 then [''limit:'' @ show_nat lim] else []))"

definition CacheKeys_search :: "string \<Rightarrow> PostFilters \<Rightarrow> sort_by \<Rightarrow> nat \<Rightarrow> string" where
  "CacheKeys_search q f sb pg =
     join '':''
       ([CachePrefix_SEARCH, ''q:'' @ q]
        @ (if has_tags (f_tags f) then [''tags:'' @ join '','' (sort (the (f_tags f)))] else [])
        @ (if truthy (f_author f) then [''author:'' @ the (f_author f)] else [])
        @ [''sort:'' @ sort_string sb]
        @ (if pg \<noteq> 0 then [''page:'' @ show_nat pg] else []))"

section \<open>Post service (modules/posts/post.service.ts)\<close>

text \<open>
  The notifications that \<^verbatim>\<open>likePost\<close> and \<^verbatim>\<open>addComment\<close> start without awaiting them are not
  part of the promise these functions return, and are left out. Page numbers and limits are
  at least 1, which is what the controller passes.
\<close>

record CreatePostDTO =
  dto_title :: string
  dto_content :: string
  dto_tags :: "string list option"
  dto_status :: "post_status option"

record CreateCommentDTO =
  cdto_content :: string
  cdto_parentComment :: "string option"

definition invalidatePostCaches :: "string option \<Rightarrow> unit async" where
  "invalidatePostCaches postId =
     try_catch
       (await (if truthy postId then CacheService_delete (CacheKeys_post (the postId)) else resolve ()) (\<lambda>_.
        await (invalidatePattern postListPattern) (\<lambda>_.
        invalidatePattern searchPattern)))
       (\<lambda>e. logger_error ''Error invalidating post caches:'')"

definition Post_save :: "(string \<Rightarrow> ObjectId option) \<Rightarrow> string \<Rightarrow> CreatePostDTO \<Rightarrow> post async" where
  "Post_save oid uid d =
     (let t = trim (dto_title d); c = trim (dto_content d);
          tg = (case dto_tags d of None \<Rightarrow> [] | Some l \<Rightarrow> l);
          st = (case dto_status d of None \<Rightarrow> Published | Some x \<Rightarrow> x)
      in case oid uid of
           None \<Rightarrow> reject (SchemaError ''Cast to ObjectId failed for path author'')
         | Some a \<Rightarrow>
             if t = [] then reject (SchemaError ''Title is required'')
             else if length t < 3 then reject (SchemaError ''Title must be at least 3 characters long'')
             else if length t > 200 then reject (SchemaError ''Title must not exceed 200 characters'')
             else if c = [] then reject (SchemaError ''Content is required'')
             else if length c < 10 then reject (SchemaError ''Content must be at least 10 characters long'')
             else if length c > 50000 then reject (SchemaError ''Content must not exceed 50000 characters'')
             else if length tg > 10 then reject (SchemaError ''Cannot have more than 10 tags'')
             else await fresh_oid (\<lambda>i. await new_Date (\<lambda>created.
               let p = \<lparr>pid = i, author = a, title = t, content = c, tags = tg, likes = [],
                        bookmarks = [], commentCount = 0, viewCount = 0, pstatus = st,
                        createdAt = created\<rparr>
               in (\<lambda>w. (Inr p, w\<lparr>posts := posts w @ [p]\<rparr>)))))"

definition createPost :: "(string \<Rightarrow> ObjectId option) \<Rightarrow> string \<Rightarrow> CreatePostDTO \<Rightarrow> post async" where
  "createPost oid uid d =
     await (Post_save oid uid d) (\<lambda>p.
     await (invalidatePostCaches None) (\<lambda>_.
     resolve p))"

definition Post_findById :: "ObjectId \<Rightarrow> post option async" where
  "Post_findById i w = (Inr (find (\<lambda>p. pid p = i) (posts w)), w)"

definition Post_update :: "ObjectId \<Rightarrow> (post \<Rightarrow> post) \<Rightarrow> unit async" where
  "Post_update i f w = (Inr (), w\<lparr>posts := map (\<lambda>p. if pid p = i then f p else p) (posts w)\<rparr>)"

definition Post_findByIdAndUpdate :: "ObjectId \<Rightarrow> (post \<Rightarrow> post) \<Rightarrow> post option async" where
  "Post_findByIdAndUpdate i f =
     await (Post_update i f) (\<lambda>_. Post_findById i)"

definition inc_viewCount :: "post \<Rightarrow> post" where
  "inc_viewCount p = p\<lparr>viewCount := viewCount p + 1\<rparr>"

definition inc_commentCount :: "post \<Rightarrow> post" where
  "inc_commentCount p = p\<lparr>commentCount := commentCount p + 1\<rparr>"

definition getPost :: "(string \<Rightarrow> ObjectId option) \<Rightarrow> string \<Rightarrow> snapshot async" where
  "getPost oid postId =
     (case oid postId of
        None \<Rightarrow> reject (NotFoundError ''Post'')
      | Some i \<Rightarrow>
          await (CacheService_get (CacheKeys_post postId)) (\<lambda>cachedPost.
          case cachedPost of
            Some c \<Rightarrow>
              await (Post_findByIdAndUpdate i inc_viewCount) (\<lambda>_.
              resolve c)
          | None \<Rightarrow>
              await (Post_findByIdAndUpdate i inc_viewCount) (\<lambda>found.
              case found of
                None \<Rightarrow> reject (NotFoundError ''Post'')
              | Some p \<Rightarrow>
                  await (CacheService_set (CacheKeys_post postId) (PostSnap p) (Some CacheTTL_POSTS)) (\<lambda>_.
                  resolve (PostSnap p)))))"

text \<open>
  The filter of a \<^verbatim>\<open>Post.find\<close>: an author string is cast by the driver, \<^verbatim>\<open>$in\<close> asks for a
  common tag. \<open>txt q p\<close> is the text score of post \<open>p\<close> for the \<^verbatim>\<open>$text\<close> query \<open>q\<close> when the
  text index matches, and comes from the database.
\<close>

definition page_of :: "post list \<Rightarrow> nat \<Rightarrow> nat \<Rightarrow> PaginatedPosts" where
  "page_of matching pg lim =
     (let tot = length matching; pages = (tot + lim - 1) div lim
      in \<lparr>page_posts = take lim (drop ((pg - 1) * lim) matching), total = tot, page = pg,
          totalPages = pages, hasMore = (pg < pages)\<rparr>)"

definition list_query ::
  "(string \<Rightarrow> ObjectId option) \<Rightarrow> PostFilters \<Rightarrow> post list \<Rightarrow> error + post list" where
  "list_query oid f ps =
     (if truthy (f_author f) \<and> oid (the (f_author f)) = None then Inl CastError
      else Inr (filter (\<lambda>p.
        (if truthy (f_author f) then Some (author p) = oid (the (f_author f)) else True)
        \<and> (if has_tags (f_tags f) then list_ex (\<lambda>t. t \<in> set (the (f_tags f))) (tags p) else True)
        \<and> pstatus p = (case f_status f of None \<Rightarrow> Published | Some st \<Rightarrow> st)) ps))"

text \<open>
  What \<^verbatim>\<open>listPosts\<close> computes from the store on a cache miss: the page of the matching posts,
  newest first, with the counters.
\<close>

definition list_from_store ::
  "(string \<Rightarrow> ObjectId option) \<Rightarrow> PostFilters \<Rightarrow> Pagination \<Rightarrow> post list
     \<Rightarrow> error + PaginatedPosts" where
  "list_from_store oid f pagination ps =
     (case list_query oid f ps of
        Inl e \<Rightarrow> Inl e
      | Inr matching \<Rightarrow>
          Inr (page_of (sort_desc createdAt matching) (pg_page pagination) (pg_limit pagination)))"

definition listPosts ::
  "(string \<Rightarrow> ObjectId option) \<Rightarrow> PostFilters \<Rightarrow> Pagination \<Rightarrow> snapshot async" where
  "listPosts oid f pagination =
     (let cacheKey = CacheKeys_postList f (pg_page pagination) (pg_limit pagination)
      in await (CacheService_get cacheKey) (\<lambda>cachedResult.
         case cachedResult of
           Some c \<Rightarrow> resolve c
         | None \<Rightarrow>
             (\<lambda>w. case list_from_store oid f pagination (posts w) of
                     Inl e \<Rightarrow> (Inl e, w)
                   | Inr result \<Rightarrow>
                       await (CacheService_set cacheKey (PageSnap result) (Some CacheTTL_POSTS)) (\<lambda>_.
                       resolve (PageSnap result)) w)))"

definition nonblank :: "string \<Rightarrow> bool" where
  "nonblank q = (q \<noteq> [] \<and> trim q \<noteq> [])"

definition search_query ::
  "(string \<Rightarrow> post \<Rightarrow> nat option) \<Rightarrow> (string \<Rightarrow> ObjectId option) \<Rightarrow> string \<Rightarrow> PostFilters
     \<Rightarrow> post list \<Rightarrow> error + post list" where
  "search_query txt oid q f ps =
     (if truthy (f_author f) \<and> oid (the (f_author f)) = None then Inl CastError
      else Inr (filter (\<lambda>p.
        pstatus p = (case f_status f of None \<Rightarrow> Published | Some st \<Rightarrow> st)
        \<and> (if nonblank q then txt q p \<noteq> None else True)
        \<and> (if has_tags (f_tags f) then list_ex (\<lambda>t. t \<in> set (the (f_tags f))) (tags p) else True)
        \<and> (if truthy (f_author f) then Some (author p) = oid (the (f_author f)) else True)) ps))"

definition score :: "(string \<Rightarrow> post \<Rightarrow> nat option) \<Rightarrow> string \<Rightarrow> post \<Rightarrow> nat" where
  "score txt q p = (case txt q p of None \<Rightarrow> 0 | Some n \<Rightarrow> n)"

definition search_sort ::
  "(string \<Rightarrow> post \<Rightarrow> nat option) \<Rightarrow> string \<Rightarrow> sort_by \<Rightarrow> post list \<Rightarrow> post list" where
  "search_sort txt q sb ps =
     (case sb of
        ByDate \<Rightarrow> sort_desc createdAt ps
      | ByPopularity \<Rightarrow>
          sort_desc (\<lambda>p. length (likes p)) (sort_desc commentCount (sort_desc createdAt ps))
      | ByRelevance \<Rightarrow>
          if nonblank q then sort_desc (score txt q) (sort_desc createdAt ps)
          else sort_desc createdAt ps)"

definition search_from_store ::
  "(string \<Rightarrow> post \<Rightarrow> nat option) \<Rightarrow> (string \<Rightarrow> ObjectId option) \<Rightarrow> string \<Rightarrow> PostFilters
     \<Rightarrow> Pagination \<Rightarrow> sort_by \<Rightarrow> post list \<Rightarrow> error + PaginatedPosts" where
  "search_from_store txt oid q f pagination sb ps =
     (case search_query txt oid q f ps of
        Inl e \<Rightarrow> Inl e
      | Inr matching \<Rightarrow>
          Inr (page_of (search_sort txt q sb matching) (pg_page pagination) (pg_limit pagination)))"

definition searchPosts ::
  "(string \<Rightarrow> post \<Rightarrow> nat option) \<Rightarrow> (string \<Rightarrow> ObjectId option) \<Rightarrow> string \<Rightarrow> PostFilters
     \<Rightarrow> Pagination \<Rightarrow> sort_by \<Rightarrow> snapshot async" where
  "searchPosts txt oid q f pagination sb =
     (let cacheKey = CacheKeys_search q f sb (pg_page pagination)
      in await (CacheService_get cacheKey) (\<lambda>cachedResult.
         case cachedResult of
           Some c \<Rightarrow> resolve c
         | None \<Rightarrow>
             (\<lambda>w. case search_from_store txt oid q f pagination sb (posts w) of
                     Inl e \<Rightarrow> (Inl e, w)
                   | Inr result \<Rightarrow>
                       await (CacheService_set cacheKey (PageSnap result) (Some CacheTTL_SEARCH)) (\<lambda>_.
                       resolve (PageSnap result)) w)))"

definition likePost :: "(string \<Rightarrow> ObjectId option) \<Rightarrow> string \<Rightarrow> string \<Rightarrow> unit async" where
  "likePost oid postId uid =
     (case oid postId of
        None \<Rightarrow> reject (NotFoundError ''Post'')
      | Some i \<Rightarrow>
          await (Post_findById i) (\<lambda>found.
          case found of
            None \<Rightarrow> reject (NotFoundError ''Post'')
          | Some p \<Rightarrow>
              (case oid uid of
                 None \<Rightarrow> reject CastError
               | Some userObjectId \<Rightarrow>
                   if \<not> list_ex (\<lambda>x. x = userObjectId) (likes p)
                   then await (Post_update i (\<lambda>p'. p'\<lparr>likes := likes p @ [userObjectId]\<rparr>)) (\<lambda>_.
                        invalidatePostCaches (Some postId))
                   else resolve ())))"

definition unlikePost :: "(string \<Rightarrow> ObjectId option) \<Rightarrow> string \<Rightarrow> string \<Rightarrow> unit async" where
  "unlikePost oid postId uid =
     (case oid postId of
        None \<Rightarrow> reject (NotFoundError ''Post'')
      | Some i \<Rightarrow>
          await (Post_findById i) (\<lambda>found.
          case found of
            None \<Rightarrow> reject (NotFoundError ''Post'')
          | Some p \<Rightarrow>
              (case oid uid of
                 None \<Rightarrow> reject CastError
               | Some userObjectId \<Rightarrow>
                   await (Post_update i (\<lambda>p'. p'\<lparr>likes := filter (\<lambda>x. x \<noteq> userObjectId) (likes p)\<rparr>)) (\<lambda>_.
                   invalidatePostCaches (Some postId)))))"

definition bookmarkPost :: "(string \<Rightarrow> ObjectId option) \<Rightarrow> string \<Rightarrow> string \<Rightarrow> unit async" where
  "bookmarkPost oid postId uid =
     (case oid postId of
        None \<Rightarrow> reject (NotFoundError ''Post'')
      | Some i \<Rightarrow>
          await (Post_findById i) (\<lambda>found.
          case found of
            None \<Rightarrow> reject (NotFoundError ''Post'')
          | Some p \<Rightarrow>
              (case oid uid of
                 None \<Rightarrow> reject CastError
               | Some userObjectId \<Rightarrow>
                   if \<not> list_ex (\<lambda>x. x = userObjectId) (bookmarks p)
                   then await (Post_update i (\<lambda>p'. p'\<lparr>bookmarks := bookmarks p @ [userObjectId]\<rparr>)) (\<lambda>_.
                        invalidatePostCaches (Some postId))
                   else resolve ())))"

definition unbookmarkPost :: "(string \<Rightarrow> ObjectId option) \<Rightarrow> string \<Rightarrow> string \<Rightarrow> unit async" where
  "unbookmarkPost oid postId uid =
     (case oid postId of
        None \<Rightarrow> reject (NotFoundError ''Post'')
      | Some i \<Rightarrow>
          await (Post_findById i) (\<lambda>found.
          case found of
            None \<Rightarrow> reject (NotFoundError ''Post'')
          | Some p \<Rightarrow>
              (case oid uid of
                 None \<Rightarrow> reject CastError
               | Some userObjectId \<Rightarrow>
                   await (Post_update i (\<lambda>p'. p'\<lparr>bookmarks := filter (\<lambda>x. x \<noteq> userObjectId) (bookmarks p)\<rparr>)) (\<lambda>_.
                   invalidatePostCaches (Some postId)))))"

text \<open>
  \<^verbatim>\<open>addComment\<close> compares \<^verbatim>\<open>parentComment.post?.toString()\<close> with the \<open>postId\<close> string, so it
  also takes \<open>hex\<close>, the driver's rendering of an ObjectId.
\<close>

definition Comment_save ::
  "(string \<Rightarrow> ObjectId option) \<Rightarrow> string \<Rightarrow> ObjectId \<Rightarrow> string \<Rightarrow> ObjectId option \<Rightarrow> comment async" where
  "Comment_save oid uid i body parent =
     (let c = trim body
      in case oid uid of
           None \<Rightarrow> reject (SchemaError ''Cast to ObjectId failed for path author'')
         | Some a \<Rightarrow>
             if c = [] then reject (SchemaError ''Content is required'')
             else if length c > 10000 then reject (SchemaError ''Content must not exceed 10000 characters'')
             else await fresh_oid (\<lambda>j. await new_Date (\<lambda>created.
               let cm = \<lparr>cmid = j, c_author = a, c_post = i, c_content = c, parentComment = parent,
                         c_createdAt = created\<rparr>
               in (\<lambda>w. (Inr cm, w\<lparr>comments := comments w @ [cm]\<rparr>)))))"

definition check_parent ::
  "(string \<Rightarrow> ObjectId option) \<Rightarrow> (ObjectId \<Rightarrow> string) \<Rightarrow> string \<Rightarrow> string option
     \<Rightarrow> ObjectId option async" where
  "check_parent oid hex postId parent =
     (if truthy parent then
        (case oid (the parent) of
           None \<Rightarrow> reject (NotFoundError ''Parent comment'')
         | Some pc \<Rightarrow>
             (\<lambda>w. case find (\<lambda>c. cmid c = pc) (comments w) of
                     None \<Rightarrow> (Inl (NotFoundError ''Parent comment''), w)
                   | Some parentDoc \<Rightarrow>
                       if hex (c_post parentDoc) \<noteq> postId
                       then (Inl (Error ''Parent comment does not belong to this post''), w)
                       else (Inr (Some pc), w)))
      else resolve None)"

definition addComment ::
  "(string \<Rightarrow> ObjectId option) \<Rightarrow> (ObjectId \<Rightarrow> string) \<Rightarrow> string \<Rightarrow> string \<Rightarrow> CreateCommentDTO
     \<Rightarrow> comment async" where
  "addComment oid hex postId uid d =
     (case oid postId of
        None \<Rightarrow> reject (NotFoundError ''Post'')
      | Some i \<Rightarrow>
          await (Post_findById i) (\<lambda>found.
          case found of
            None \<Rightarrow> reject (NotFoundError ''Post'')
          | Some p \<Rightarrow>
              await (check_parent oid hex postId (cdto_parentComment d)) (\<lambda>parent.
              await (Comment_save oid uid i (cdto_content d) parent) (\<lambda>cm.
              await (Post_findByIdAndUpdate i inc_commentCount) (\<lambda>_.
              await (invalidatePostCaches (Some postId)) (\<lambda>_.
              resolve cm))))))"

section \<open>Chat service (modules/chat/chat.service.ts)\<close>

definition Chat_findById :: "(string \<Rightarrow> ObjectId option) \<Rightarrow> string \<Rightarrow> chat option async" where
  "Chat_findById oid chatId =
     (case oid chatId of
        None \<Rightarrow> reject CastError
      | Some i \<Rightarrow> (\<lambda>w. (Inr (find (\<lambda>c. cid c = i) (chats w)), w)))"

text \<open>
  \<^verbatim>\<open>chat.save()\<close> runs the save hook of the chat schema, which refuses a direct chat that does
  not have exactly two participants.
\<close>

definition Chat_save_lastMessage :: "chat \<Rightarrow> ObjectId \<Rightarrow> unit async" where
  "Chat_save_lastMessage c m =
     (if ctype c = Direct \<and> length (participants c) \<noteq> 2
      then reject (Error ''Direct chats must have exactly 2 participants'')
      else (\<lambda>w. (Inr (), w\<lparr>chats := map (\<lambda>c'. if cid c' = cid c then c'\<lparr>lastMessage := Some m\<rparr> else c') (chats w)\<rparr>)))"

definition Message_create :: "ObjectId \<Rightarrow> ObjectId \<Rightarrow> string \<Rightarrow> msg async" where
  "Message_create chatOid senderOid body =
     (let c = trim body
      in if c = [] then reject (SchemaError ''Path `content` is required.'')
         else if length c > 5000 then reject (SchemaError ''Path `content` is longer than the maximum allowed length (5000).'')
         else await fresh_oid (\<lambda>i. await new_Date (\<lambda>t.
           let rb = [senderOid];
               m = \<lparr>mid = i, m_chat = chatOid, sender = senderOid, m_content = c,
                    readBy = (if list_ex (\<lambda>x. x = senderOid) rb then rb else rb @ [senderOid]),
                    m_createdAt = t\<rparr>
           in (\<lambda>w. (Inr m, w\<lparr>messages := messages w @ [m]\<rparr>)))))"

definition sendMessage :: "(string \<Rightarrow> ObjectId option) \<Rightarrow> string \<Rightarrow> string \<Rightarrow> string \<Rightarrow> msg async" where
  "sendMessage oid uid chatId body =
     try_catch
       (await (Chat_findById oid chatId) (\<lambda>found.
        case found of
          None \<Rightarrow> reject (NotFoundError ''Chat'')
        | Some c \<Rightarrow>
            (case oid uid of
               None \<Rightarrow> reject CastError
             | Some userObjectId \<Rightarrow>
                 if \<not> list_ex (\<lambda>p. p = userObjectId) (participants c)
                 then reject (ValidationError ''User is not a participant in this chat'')
                 else
                   await (Message_create (cid c) userObjectId (trim body)) (\<lambda>m.
                   await (Chat_save_lastMessage c (mid m)) (\<lambda>_.
                   (\<lambda>w. case find (\<lambda>x. mid x = mid m) (messages w) of
                           None \<Rightarrow> (Inl (NotFoundError ''Message''), w)
                         | Some populatedMessage \<Rightarrow> (Inr populatedMessage, w)))))))
       (\<lambda>e. await (logger_error ''Failed to send message'') (\<lambda>_. reject e))"

text \<open>
  The filter \<^verbatim>\<open>{ type: 'direct', participants: { $all: [a, b], $size: 2 } }\<close>.
\<close>

definition direct_between :: "ObjectId \<Rightarrow> ObjectId \<Rightarrow> chat \<Rightarrow> bool" where
  "direct_between a b c =
     (ctype c = Direct
      \<and> list_ex (\<lambda>p. p = a) (participants c)
      \<and> list_ex (\<lambda>p. p = b) (participants c)
      \<and> length (participants c) = 2)"

definition Chat_findOne_direct :: "ObjectId \<Rightarrow> ObjectId \<Rightarrow> chat option async" where
  "Chat_findOne_direct a b w = (Inr (find (direct_between a b) (chats w)), w)"

definition Chat_create_direct :: "ObjectId \<Rightarrow> ObjectId \<Rightarrow> chat async" where
  "Chat_create_direct a b =
     await fresh_oid (\<lambda>i.
       let c = \<lparr>cid = i, ctype = Direct, cname = None, participants = [a, b], lastMessage = None\<rparr>
       in (\<lambda>w. (Inr c, w\<lparr>chats := chats w @ [c]\<rparr>)))"

definition getOrCreateDirectChat ::
  "(string \<Rightarrow> ObjectId option) \<Rightarrow> string \<Rightarrow> string \<Rightarrow> chat async" where
  "getOrCreateDirectChat oid userId1 userId2 =
     try_catch
       (if userId1 = userId2 then reject (ValidationError ''Cannot create chat with yourself'')
        else
          (case (oid userId1, oid userId2) of
             (Some a, Some b) \<Rightarrow>
               await (Chat_findOne_direct a b) (\<lambda>existingChat.
               case existingChat of
                 Some c \<Rightarrow> resolve c
               | None \<Rightarrow>
                   await (Chat_create_direct a b) (\<lambda>c.
                   (\<lambda>w. case find (\<lambda>x. cid x = cid c) (chats w) of
                           None \<Rightarrow> (Inl (NotFoundError ''Chat''), w)
                         | Some populatedChat \<Rightarrow> (Inr populatedChat, w))))
           | _ \<Rightarrow> reject CastError))
       (\<lambda>e. await (logger_error ''Failed to get or create direct chat'') (\<lambda>_. reject e))"

section \<open>Chat handlers of a connection (socket/chatHandlers.ts)\<close>

record socket =
  sock_id :: string
  sock_userId :: "string option"
  sock_email :: "string option"

record SendMessagePayload =
  chatId :: string
  p_content :: string

datatype ack = AckError string | AckMessage msg

text \<open>
  A handler returns what it passes to the acknowledgement callback of the client, or \<open>None\<close>
  when it calls no callback; \<open>cb\<close> says whether the client supplied one.
\<close>

definition callback :: "bool \<Rightarrow> ack \<Rightarrow> ack option async" where
  "callback cb a = resolve (if cb then Some a else None)"

definition send_message ::
  "(string \<Rightarrow> ObjectId option) \<Rightarrow> socket \<Rightarrow> SendMessagePayload \<Rightarrow> bool \<Rightarrow> ack option async" where
  "send_message oid sock pl cb =
     try_catch
       (if \<not> truthy (sock_userId sock) then
          await (logger_warn ''Unauthenticated socket attempted to send message'') (\<lambda>_.
          callback cb (AckError ''Authentication required''))
        else if chatId pl = [] \<or> p_content pl = [] \<or> length (trim (p_content pl)) = 0 then
          await (logger_warn ''Invalid send_message payload'') (\<lambda>_.
          callback cb (AckError ''Invalid message data''))
        else
          await (sendMessage oid (the (sock_userId sock)) (chatId pl) (p_content pl)) (\<lambda>m.
          await getIO (\<lambda>_.
          await (io_to_emit (''chat:'' @ chatId pl) ''new_message'' (MessageData m)) (\<lambda>_.
          callback cb (AckMessage m)))))
       (\<lambda>e. await (logger_error ''Failed to handle send_message event'') (\<lambda>_.
             callback cb (AckError (error_message e))))"

definition typing :: "socket \<Rightarrow> string \<Rightarrow> unit async" where
  "typing sock chat_id =
     try_catch
       (if \<not> truthy (sock_userId sock) then
          logger_warn ''Unauthenticated socket attempted to send typing indicator''
        else if chat_id = [] then logger_warn ''Invalid typing payload''
        else emitToRoomAcrossInstances (''chat:'' @ chat_id) ''user_typing''
               (TypingData chat_id (the (sock_userId sock)) (sock_email sock)))
       (\<lambda>e. logger_error ''Failed to handle typing event'')"

section \<open>Example data\<close>

text \<open>
  A world with an initialised, reachable Redis and an empty store, a toy ObjectId parser in
  which \<open>''a1''\<close> and \<open>''A1''\<close> spell the same id, and one post. They serve the worked
  examples that follow the theorems.
\<close>

definition world0 :: world where
  "world0 = \<lparr>now = 1000, redis_client = True, redis_down = (\<lambda>n. False), redis_calls = 0, kv = [],
     online = [], published = [], io_server = True, emitted = [], logs = [], next_oid = 100,
     posts = [], comments = [], notifications = [], chats = [], messages = []\<rparr>"

definition oid0 :: "string \<Rightarrow> ObjectId option" where
  "oid0 s = (if s = ''a1'' \<or> s = ''A1'' then Some 1 else if s = ''b2'' then Some 2
             else if s = ''c3'' then Some 3 else if s = ''d4'' then Some 4 else None)"

definition post0 :: post where
  "post0 = \<lparr>pid = 3, author = 1, title = ''Hello'', content = ''First post!'', tags = [''isabelle''],
     likes = [], bookmarks = [], commentCount = 0, viewCount = 7, pstatus = Published, createdAt = 900\<rparr>"

definition world_no_redis :: world where
  "world_no_redis = world0\<lparr>redis_client := False, posts := [post0]\<rparr>"

definition world_down :: world where
  "world_down = world0\<lparr>redis_down := (\<lambda>n. True)\<rparr>"

text \<open>
  \<open>storage_error w w'\<close>: between the worlds \<open>w\<close> and \<open>w'\<close> the storage layer raised an error,
  because there is no client or because one of the commands issued in between was rejected.
\<close>

definition storage_error :: "world \<Rightarrow> world \<Rightarrow> bool" where
  "storage_error w w' =
     (\<not> redis_client w \<or> list_ex (redis_down w) [redis_calls w ..< redis_calls w'])"

text \<open>
  The loop of the property test "should handle likes idempotently": \<open>n\<close> calls of
  \<^verbatim>\<open>likePost\<close> in a row, stopping at the first one that throws.
\<close>

fun like_times :: "(string \<Rightarrow> ObjectId option) \<Rightarrow> string \<Rightarrow> string \<Rightarrow> nat \<Rightarrow> unit async" where
  "like_times oid postId uid 0 = resolve ()"
| "like_times oid postId uid (Suc n) =
     await (likePost oid postId uid) (\<lambda>_. like_times oid postId uid n)"

definition world_post :: world where
  "world_post = world0\<lparr>posts := [post0]\<rparr>"

definition dto_self :: CreateNotificationDTO where
  "dto_self = \<lparr>recipientId = ''a1'', dto_type = Like, actorId = ''a1'',
     dto_message = ''liked your post'', dto_resource = Some (RPost, ''c3'')\<rparr>"

definition notif_at :: "nat \<Rightarrow> notification" where
  "notif_at t = \<lparr>nid = t, recipient = 1, ntype = Comment, actor = 2, resource = None,
     message = ''commented on your post'', isRead = False, n_createdAt = t\<rparr>"

definition world_many :: world where
  "world_many = world0\<lparr>notifications := map notif_at [0..<60]\<rparr>"

definition no_filters :: NotificationFilters where
  "no_filters = \<lparr>f_isRead = None, f_type = None\<rparr>"

text \<open>A snapshot of the post taken at five views, cached until time 1100.\<close>

definition post0_cached :: post where
  "post0_cached = post0\<lparr>viewCount := 5\<rparr>"

definition world_cached :: world where
  "world_cached = world_post\<lparr>kv := [(''post:c3'', PostSnap post0_cached, Some 1100)]\<rparr>"

text \<open>A direct chat of the users 1 and 2, a socket of user \<open>a1\<close> and a message for that chat.\<close>

definition chat0 :: chat where
  "chat0 = \<lparr>cid = 4, ctype = Direct, cname = None, participants = [1, 2], lastMessage = None\<rparr>"

definition world_chat :: world where
  "world_chat = world0\<lparr>chats := [chat0]\<rparr>"

text \<open>A direct chat whose two participants are both the user 1.\<close>

definition self_chat :: chat where
  "self_chat = \<lparr>cid = 100, ctype = Direct, cname = None, participants = [1, 1], lastMessage = None\<rparr>"

definition sock0 :: socket where
  "sock0 = \<lparr>sock_id = ''s1'', sock_userId = Some ''a1'', sock_email = Some ''a@example.com''\<rparr>"

definition payload0 :: SendMessagePayload where
  "payload0 = \<lparr>chatId = ''d4'', p_content = ''hi''\<rparr>"

definition msg0 :: msg where
  "msg0 = \<lparr>mid = 100, m_chat = 4, sender = 1, m_content = ''hi'', readBy = [1], m_createdAt = 1000\<rparr>"

text \<open>
  \<open>redis_accepts k w\<close>: the Redis client exists and none of the next \<open>k\<close> commands is
  rejected; an invalidation issues at most five (one \<^verbatim>\<open>DEL\<close>, then twice \<^verbatim>\<open>SCAN\<close> and \<^verbatim>\<open>DEL\<close>).
  \<open>lists_invalidated w\<close>: the keyspace holds no live key of a post list or of a search
  result. \<open>no_key k w\<close>: the keyspace has no entry for \<open>k\<close>.
\<close>

definition redis_accepts :: "nat \<Rightarrow> world \<Rightarrow> bool" where
  "redis_accepts k w =
     (redis_client w \<and> (\<forall>n. redis_calls w \<le> n \<and> n < redis_calls w + k \<longrightarrow> \<not> redis_down w n))"

definition lists_invalidated :: "world \<Rightarrow> bool" where
  "lists_invalidated w =
     list_all (\<lambda>(k, v, e). \<not> (live (now w) e
                 \<and> (prefix CachePrefix_POST_LIST k \<or> prefix CachePrefix_SEARCH k)))
       (kv w)"

definition no_key :: "string \<Rightarrow> world \<Rightarrow> bool" where
  "no_key k w = (k \<notin> fst ` set (kv w))"

text \<open>
  A scenario: one post in the store; Redis rejects its third and fourth command, which are
  the two \<^verbatim>\<open>SCAN\<close>s of the invalidation that follows the creation of a second post.
\<close>

definition world_flaky :: world where
  "world_flaky = world_post\<lparr>redis_down := (\<lambda>n. n = 2 \<or> n = 3)\<rparr>"

definition all_posts :: PostFilters where
  "all_posts = \<lparr>f_author = None, f_tags = None, f_status = None\<rparr>"

definition first_page :: Pagination where
  "first_page = \<lparr>pg_page = 1, pg_limit = 10\<rparr>"

definition dto_second :: CreatePostDTO where
  "dto_second = \<lparr>dto_title = ''Second'', dto_content = ''Another post here'', dto_tags = None,
     dto_status = None\<rparr>"

definition post1 :: post where
  "post1 = \<lparr>pid = 100, author = 1, title = ''Second'', content = ''Another post here'', tags = [],
     likes = [], bookmarks = [], commentCount = 0, viewCount = 0, pstatus = Published,
     createdAt = 1000\<rparr>"

definition page_one_post :: PaginatedPosts where
  "page_one_post = \<lparr>page_posts = [post0], total = 1, page = 1, totalPages = 1, hasMore = False\<rparr>"

definition page_two_posts :: PaginatedPosts where
  "page_two_posts =
     \<lparr>page_posts = [post1, post0], total = 2, page = 1, totalPages = 1, hasMore = False\<rparr>"

definition after_first_read :: world where
  "after_first_read = snd (listPosts oid0 all_posts first_page world_flaky)"

definition after_write :: world where
  "after_write = snd (createPost oid0 ''a1'' dto_second after_first_read)"

definition healthy_read :: world where
  "healthy_read = snd (listPosts oid0 all_posts first_page world_post)"


section \<open>Properties of the cache service\<close>

lemmas async_defs = resolve_def reject_def await_def try_catch_def logger_error_def logger_warn_def
  getRedisClient_def getRedisPublisher_def redis_cmd_def new_Date_def getIO_def io_to_emit_def

lemmas redis_defs = redis_get_def redis_setEx_def redis_set_def redis_del_def redis_exists_def
  redis_sAdd_def redis_sRem_def redis_sMembers_def redis_publish_def redis_scan_def

lemmas cache_defs = CacheService_get_def CacheService_set_def CacheService_delete_def
  invalidatePattern_def

lemma find_map_same:
  "(\<And>p. pid (f p) = pid p) \<Longrightarrow>
   find (\<lambda>p. pid p = i) (map (\<lambda>p. if pid p = i then f p else p) ps)
     = map_option f (find (\<lambda>p. pid p = i) ps)"
  by (induction ps) auto

lemma cache_get_fail:
  "\<not> redis_client w \<or> redis_down w (redis_calls w) \<Longrightarrow> fst (CacheService_get key w) = Inr None"
  by (auto simp: cache_defs async_defs Let_def)

lemma cache_get_store:
  "CacheService_get key w = (r, w') \<Longrightarrow> (\<exists>x. r = Inr x) \<and> posts w' = posts w"
  by (auto simp: cache_defs async_defs redis_defs Let_def split: option.splits if_splits)

lemma cache_set_store:
  "CacheService_set key v ttl w = (r, w') \<Longrightarrow> r = Inr () \<and> posts w' = posts w"
  by (auto simp: cache_defs async_defs redis_defs Let_def split: option.splits if_splits)

lemma cache_delete_store:
  "CacheService_delete key w = (r, w') \<Longrightarrow> r = Inr () \<and> posts w' = posts w"
  by (auto simp: cache_defs async_defs redis_defs Let_def split: option.splits if_splits)

lemma invalidatePattern_store:
  "invalidatePattern p w = (r, w') \<Longrightarrow> r = Inr () \<and> posts w' = posts w"
  by (auto simp: cache_defs async_defs redis_defs Let_def split: option.splits if_splits)

lemma invalidatePostCaches_store:
  "invalidatePostCaches po w = (r, w') \<Longrightarrow> r = Inr () \<and> posts w' = posts w"
  unfolding invalidatePostCaches_def try_catch_def await_def
  by (auto split: prod.splits sum.splits if_splits simp: resolve_def logger_error_def
      dest!: cache_delete_store invalidatePattern_store)

lemma invalidatePostCaches_fst [simp]: "fst (invalidatePostCaches po w) = Inr ()"
  by (metis invalidatePostCaches_store prod.collapse)

lemma invalidatePostCaches_posts [simp]: "posts (snd (invalidatePostCaches po w)) = posts w"
  by (metis invalidatePostCaches_store prod.collapse)

text \<open>With the cache failing, \<^verbatim>\<open>getPost\<close> answers from the store.\<close>

lemma getPost_degraded:
  assumes H: "\<not> redis_client w \<or> redis_down w (redis_calls w)"
    and "oid postId = Some i" and "find (\<lambda>p. pid p = i) (posts w) = Some p"
  shows "fst (getPost oid postId w) = Inr (PostSnap (inc_viewCount p))"
proof -
  obtain w1 where g: "CacheService_get (CacheKeys_post postId) w = (Inr None, w1)"
    using cache_get_fail[OF H, of "CacheKeys_post postId"]
    by (cases "CacheService_get (CacheKeys_post postId) w") auto
  have p1: "posts w1 = posts w" using cache_get_store[OF g] by simp
  have f: "find (\<lambda>p. pid p = i) (map (\<lambda>p. if pid p = i then inc_viewCount p else p) (posts w1))
             = Some (inc_viewCount p)"
    using assms(3) p1 by (simp add: find_map_same inc_viewCount_def)
  show ?thesis
    using assms(2) g f
    by (auto simp: getPost_def await_def Post_findByIdAndUpdate_def Post_update_def
          Post_findById_def resolve_def
        split: prod.splits sum.splits dest!: cache_set_store)
qed

text \<open>Whatever the cache does, \<^verbatim>\<open>likePost\<close> on an existing post succeeds and updates the store.\<close>

lemma likePost_store:
  assumes "oid postId = Some i" and "find (\<lambda>p. pid p = i) (posts w) = Some p" and "oid uid = Some u"
  shows "fst (likePost oid postId uid w) = Inr () \<and>
         posts (snd (likePost oid postId uid w)) =
           (if u \<in> set (likes p) then posts w
            else map (\<lambda>p'. if pid p' = i then p'\<lparr>likes := likes p @ [u]\<rparr> else p') (posts w))"
  using assms
  by (auto simp: likePost_def await_def Post_update_def Post_findById_def resolve_def list_ex_iff
      split: prod.splits sum.splits)

text \<open>
  Claim C7. When the cache backend raises an error (the client was never created, or Redis
  rejects the command), \<^verbatim>\<open>CacheService.get\<close> resolves to null, and \<^verbatim>\<open>set\<close> and \<^verbatim>\<open>delete\<close>
  resolve normally and leave the keyspace alone. The store-backed operations that call them
  still return the right result: \<^verbatim>\<open>getPost\<close> returns the post read from the store with its
  view count incremented, and \<^verbatim>\<open>likePost\<close> succeeds and records the like.
\<close>

theorem cache_graceful_degradation:
  assumes "\<not> redis_client w \<or> redis_down w (redis_calls w)"
    and "oid postId = Some i" and "find (\<lambda>p. pid p = i) (posts w) = Some p" and "oid uid = Some u"
  shows "fst (CacheService_get key w) = Inr None
       \<and> fst (CacheService_set key v ttl w) = Inr ()
       \<and> kv (snd (CacheService_set key v ttl w)) = kv w
       \<and> fst (CacheService_delete key w) = Inr ()
       \<and> kv (snd (CacheService_delete key w)) = kv w
       \<and> fst (getPost oid postId w) = Inr (PostSnap (inc_viewCount p))
       \<and> fst (likePost oid postId uid w) = Inr ()
       \<and> posts (snd (likePost oid postId uid w)) =
           (if u \<in> set (likes p) then posts w
            else map (\<lambda>p'. if pid p' = i then p'\<lparr>likes := likes p @ [u]\<rparr> else p') (posts w))"
proof -
  have "fst (CacheService_get key w) = Inr None"
    using assms(1) by (rule cache_get_fail)
  moreover have "fst (CacheService_set key v ttl w) = Inr ()
      \<and> kv (snd (CacheService_set key v ttl w)) = kv w"
    using assms(1) by (auto simp: cache_defs async_defs Let_def)
  moreover have "fst (CacheService_delete key w) = Inr ()
      \<and> kv (snd (CacheService_delete key w)) = kv w"
    using assms(1) by (auto simp: cache_defs async_defs Let_def)
  moreover have "fst (getPost oid postId w) = Inr (PostSnap (inc_viewCount p))"
    using assms(1-3) by (rule getPost_degraded)
  moreover note likePost_store[of oid postId i w p uid u, OF assms(2-4)]
  ultimately show ?thesis by blast
qed

theorem cache_graceful_degradation_witness:
  "redis_client world_no_redis = False
   \<and> oid0 ''c3'' = Some 3 \<and> find (\<lambda>p. pid p = 3) (posts world_no_redis) = Some post0
   \<and> oid0 ''b2'' = Some 2
   \<and> fst (CacheService_get ''post:c3'' world_no_redis) = Inr None
   \<and> fst (CacheService_set ''post:c3'' (PostSnap post0) (Some 120) world_no_redis) = Inr ()
   \<and> fst (CacheService_delete ''post:c3'' world_no_redis) = Inr ()
   \<and> fst (getPost oid0 ''c3'' world_no_redis) = Inr (PostSnap (post0\<lparr>viewCount := 8\<rparr>))
   \<and> fst (likePost oid0 ''c3'' ''b2'' world_no_redis) = Inr ()
   \<and> posts (snd (likePost oid0 ''c3'' ''b2'' world_no_redis)) = [post0\<lparr>likes := [2]\<rparr>]"
  using cache_graceful_degradation[of world_no_redis oid0 "''c3''" 3 post0 "''b2''" 2
      "''post:c3''" "PostSnap post0" "Some 120"]
  by (simp add: world_no_redis_def world0_def oid0_def post0_def Let_def inc_viewCount_def)

section \<open>Properties of the presence tracker\<close>

lemmas presence_defs = setUserOnline_def setUserOffline_def getUserPresence_def
  refreshUserPresence_def broadcastPresenceUpdate_def emitToUserAcrossInstances_def
  publishMessage_def

lemma getUserPresence_eq:
  "fst (getUserPresence uid w) =
     (if \<not> redis_client w \<or> redis_down w (redis_calls w) then Inr None
      else case lookup_live w (PRESENCE_KEY_PREFIX @ uid) of
             Some p \<Rightarrow> Inr (Some p)
           | None \<Rightarrow> Inr (Some (PresenceSnap
                 \<lparr>userId = uid, status = Offline, lastSeen = now w, socketId = None\<rparr>)))"
  by (auto simp: getUserPresence_def async_defs redis_defs Let_def lookup_live_def
      split: option.splits)

text \<open>
  Claim C8. \<^verbatim>\<open>getUserPresence\<close> never rejects. It resolves to the live record stored under the
  user's presence key when there is one, to a synthesized offline record stamped with the
  current time when there is none, and to null exactly when the storage layer raised an
  error (no client, or the \<^verbatim>\<open>GET\<close> rejected): null and offline are different results.
\<close>

theorem getUserPresence_result:
  "fst (getUserPresence uid w) =
     (if \<not> redis_client w \<or> redis_down w (redis_calls w) then Inr None
      else case lookup_live w (PRESENCE_KEY_PREFIX @ uid) of
             Some p \<Rightarrow> Inr (Some p)
           | None \<Rightarrow> Inr (Some (PresenceSnap
                 \<lparr>userId = uid, status = Offline, lastSeen = now w, socketId = None\<rparr>)))
   \<and> (fst (getUserPresence uid w) = Inr None
        \<longleftrightarrow> (\<not> redis_client w \<or> redis_down w (redis_calls w)))"
  by (auto simp: getUserPresence_eq split: option.splits)

theorem getUserPresence_result_witness:
  "fst (getUserPresence ''u1'' world_down) = Inr None
   \<and> fst (getUserPresence ''u1'' world0) = Inr (Some (PresenceSnap
        \<lparr>userId = ''u1'', status = Offline, lastSeen = 1000, socketId = None\<rparr>))
   \<and> fst (getUserPresence ''u1'' (snd (setUserOnline ''u1'' ''s1'' world0))) = Inr (Some (PresenceSnap
        \<lparr>userId = ''u1'', status = Online, lastSeen = 1000, socketId = Some ''s1''\<rparr>))"
  using getUserPresence_result[of "''u1''" world_down] getUserPresence_result[of "''u1''" world0]
    getUserPresence_result[of "''u1''" "snd (setUserOnline ''u1'' ''s1'' world0)"]
  by (simp add: world_down_def world0_def presence_defs async_defs redis_defs Let_def
      lookup_live_def live_def PRESENCE_KEY_PREFIX_def PRESENCE_TTL_def)

lemma setUserOnline_eq:
  "fst (setUserOnline uid sock w) =
     (if \<not> redis_client w then Inl (Error ''Redis client not initialized'')
      else if redis_down w (redis_calls w) \<or> redis_down w (Suc (redis_calls w)) then Inl RedisError
      else Inr ())"
  by (auto simp: presence_defs async_defs redis_defs Let_def)

lemma setUserOffline_eq:
  "fst (setUserOffline uid w) =
     (if \<not> redis_client w then Inl (Error ''Redis client not initialized'')
      else if redis_down w (redis_calls w) \<or> redis_down w (Suc (redis_calls w)) then Inl RedisError
      else Inr ())"
  by (auto simp: presence_defs async_defs redis_defs Let_def)

lemma setUserOnline_logs:
  "fst (setUserOnline uid sock w) = Inl e \<Longrightarrow>
   logs (snd (setUserOnline uid sock w)) = logs w @ [(LError, ''Failed to set user online'')]"
  by (auto simp: presence_defs async_defs redis_defs Let_def split: if_splits)

lemma setUserOffline_logs:
  "fst (setUserOffline uid w) = Inl e \<Longrightarrow>
   logs (snd (setUserOffline uid w)) = logs w @ [(LError, ''Failed to set user offline'')]"
  by (auto simp: presence_defs async_defs redis_defs Let_def split: if_splits)

text \<open>
  The loop of \<^verbatim>\<open>cleanupStalePresence\<close> logs nothing itself; when it finishes, none of the
  commands it issued was rejected.
\<close>

lemma cleanup_loop_inv:
  "cleanup_loop us c w = (r, w') \<Longrightarrow>
     logs w' = logs w \<and> redis_down w' = redis_down w \<and> redis_calls w \<le> redis_calls w' \<and>
     (case r of
        Inr _ \<Rightarrow> (\<forall>n. redis_calls w \<le> n \<and> n < redis_calls w' \<longrightarrow> \<not> redis_down w n)
      | Inl e \<Rightarrow> True)"
proof (induction us arbitrary: c w)
  case Nil
  then show ?case by (auto simp: resolve_def)
next
  case (Cons u us)
  show ?case
  proof (cases "redis_down w (redis_calls w)")
    case True
    with Cons.prems show ?thesis by (auto simp: async_defs Let_def)
  next
    case False
    let ?w1 = "w\<lparr>redis_calls := Suc (redis_calls w)\<rparr>"
    show ?thesis
    proof (cases "lookup_live ?w1 (PRESENCE_KEY_PREFIX @ u) \<noteq> None")
      case True
      with False Cons.prems have "cleanup_loop us c ?w1 = (r, w')"
        by (auto simp: async_defs redis_defs Let_def)
      from Cons.IH[OF this] False show ?thesis
        by (auto split: sum.splits) (metis Suc_leI le_neq_implies_less)
    next
      case absent: False
      show ?thesis
      proof (cases "redis_down w (Suc (redis_calls w))")
        case True
        with False absent Cons.prems show ?thesis
          by (auto simp: async_defs redis_defs Let_def)
      next
        case up: False
        let ?w2 = "w\<lparr>redis_calls := Suc (Suc (redis_calls w)),
                      online := filter (\<lambda>x. x \<noteq> u) (online w)\<rparr>"
        from False absent up Cons.prems have "cleanup_loop us (Suc c) ?w2 = (r, w')"
          by (auto simp: async_defs redis_defs Let_def lookup_live_def)
        from Cons.IH[OF this] False up show ?thesis
          by (auto split: sum.splits) (metis Suc_leI le_neq_implies_less)
      qed
    qed
  qed
qed

lemma refreshUserPresence_never: "fst (refreshUserPresence uid w) = Inr ()"
  by (auto simp: refreshUserPresence_def async_defs redis_defs Let_def split: option.splits)

lemma cleanupStalePresence_never: "fst (cleanupStalePresence w) = Inr ()"
  unfolding cleanupStalePresence_def try_catch_def
  by (auto simp: async_defs redis_defs Let_def split: prod.splits sum.splits)

lemma refreshUserPresence_logs:
  "storage_error w (snd (refreshUserPresence uid w)) \<Longrightarrow>
   logs (snd (refreshUserPresence uid w)) = logs w @ [(LError, ''Failed to refresh user presence'')]"
  by (auto simp: storage_error_def list_ex_iff refreshUserPresence_def async_defs redis_defs
        Let_def less_Suc_eq
      split: option.splits if_splits)

lemma cleanupStalePresence_logs:
  "storage_error w (snd (cleanupStalePresence w)) \<Longrightarrow>
   logs (snd (cleanupStalePresence w)) = logs w @ [(LError, ''Failed to cleanup stale presence'')]"
  unfolding cleanupStalePresence_def try_catch_def storage_error_def list_ex_iff
  by (auto simp: async_defs redis_defs Let_def split: prod.splits sum.splits if_splits
        dest!: cleanup_loop_inv)
     (metis Suc_leI le_neq_implies_less)

lemma getUserPresence_logs:
  "storage_error w (snd (getUserPresence uid w)) \<Longrightarrow>
   fst (getUserPresence uid w) = Inr None \<and>
   logs (snd (getUserPresence uid w)) = logs w @ [(LError, ''Failed to get user presence'')]"
  by (auto simp: storage_error_def list_ex_iff getUserPresence_def async_defs redis_defs Let_def
        less_Suc_eq
      split: option.splits if_splits)

text \<open>
  Claim C2 fails for \<^verbatim>\<open>setUserOnline\<close> and \<^verbatim>\<open>setUserOffline\<close>: their \<^verbatim>\<open>catch\<close> blocks log and
  then \<^verbatim>\<open>throw error\<close>. With Redis rejecting every command both reject.
\<close>

theorem presence_set_rethrows_counterexample:
  "fst (setUserOnline ''u1'' ''s1'' world_down) = Inl RedisError
   \<and> fst (setUserOffline ''u1'' world_down) = Inl RedisError"
  by (simp add: setUserOnline_eq setUserOffline_eq world_down_def world0_def)

text \<open>
  Claim C2, amended. \<^verbatim>\<open>refreshUserPresence\<close> (heartbeat) and \<^verbatim>\<open>cleanupStalePresence\<close> never
  reject, and log an error whenever the storage layer raised one; \<^verbatim>\<open>getUserPresence\<close> then
  resolves to null and logs. \<^verbatim>\<open>setUserOnline\<close> and \<^verbatim>\<open>setUserOffline\<close> reject with the storage
  error when there is no client or when the presence write or the update of the online set
  is rejected, after logging it; they resolve otherwise, also when publishing the presence
  update fails.
\<close>

theorem presence_error_policy:
  "fst (refreshUserPresence uid w) = Inr ()
   \<and> fst (cleanupStalePresence w) = Inr ()
   \<and> (storage_error w (snd (refreshUserPresence uid w)) \<longrightarrow>
        logs (snd (refreshUserPresence uid w))
          = logs w @ [(LError, ''Failed to refresh user presence'')])
   \<and> (storage_error w (snd (cleanupStalePresence w)) \<longrightarrow>
        logs (snd (cleanupStalePresence w))
          = logs w @ [(LError, ''Failed to cleanup stale presence'')])
   \<and> (storage_error w (snd (getUserPresence uid w)) \<longrightarrow>
        fst (getUserPresence uid w) = Inr None
        \<and> logs (snd (getUserPresence uid w)) = logs w @ [(LError, ''Failed to get user presence'')])
   \<and> fst (setUserOnline uid sock w) =
       (if \<not> redis_client w then Inl (Error ''Redis client not initialized'')
        else if redis_down w (redis_calls w) \<or> redis_down w (Suc (redis_calls w))
        then Inl RedisError else Inr ())
   \<and> fst (setUserOffline uid w) =
       (if \<not> redis_client w then Inl (Error ''Redis client not initialized'')
        else if redis_down w (redis_calls w) \<or> redis_down w (Suc (redis_calls w))
        then Inl RedisError else Inr ())
   \<and> (\<forall>e. fst (setUserOnline uid sock w) = Inl e \<longrightarrow>
        logs (snd (setUserOnline uid sock w)) = logs w @ [(LError, ''Failed to set user online'')])
   \<and> (\<forall>e. fst (setUserOffline uid w) = Inl e \<longrightarrow>
        logs (snd (setUserOffline uid w)) = logs w @ [(LError, ''Failed to set user offline'')])"
  using refreshUserPresence_never[of uid w] cleanupStalePresence_never[of w]
    refreshUserPresence_logs[of w uid] cleanupStalePresence_logs[of w]
    getUserPresence_logs[of w uid] setUserOnline_eq[of uid sock w] setUserOffline_eq[of uid w]
    setUserOnline_logs[of uid sock w] setUserOffline_logs[of uid w]
  by blast

theorem presence_error_policy_witness:
  "storage_error world_down (snd (refreshUserPresence ''u1'' world_down))
   \<and> fst (refreshUserPresence ''u1'' world_down) = Inr ()
   \<and> logs (snd (refreshUserPresence ''u1'' world_down))
       = [(LError, ''Failed to refresh user presence'')]
   \<and> fst (cleanupStalePresence world_down) = Inr ()
   \<and> logs (snd (cleanupStalePresence world_down)) = [(LError, ''Failed to cleanup stale presence'')]
   \<and> fst (getUserPresence ''u1'' world_down) = Inr None
   \<and> fst (setUserOnline ''u1'' ''s1'' world_down) = Inl RedisError
   \<and> logs (snd (setUserOnline ''u1'' ''s1'' world_down)) = [(LError, ''Failed to set user online'')]
   \<and> fst (setUserOffline ''u1'' world_down) = Inl RedisError
   \<and> fst (setUserOnline ''u1'' ''s1'' world0) = Inr ()"
  using presence_error_policy[of "''u1''" world_down "''s1''"]
    presence_error_policy[of "''u1''" world0 "''s1''"]
  by (simp add: world_down_def world0_def storage_error_def refreshUserPresence_def
      cleanupStalePresence_def getUserPresence_def async_defs redis_defs Let_def)

section \<open>Properties of the notification service\<close>

lemmas notif_defs = createNotification_def Notification_save_def
  NotificationService_emitNotificationToUser_def emitNotificationToUser_def fresh_oid_def

text \<open>
  Claim C3. When \<open>recipientId\<close> and \<open>actorId\<close> are the same string, \<^verbatim>\<open>createNotification\<close>
  stores no notification, emits nothing to any room and publishes nothing. It returns null,
  unless the id is malformed, in which case it throws the validation error of the recipient
  check, still without creating anything.
\<close>

theorem createNotification_self_suppressed:
  assumes "recipientId d = actorId d"
  shows "notifications (snd (createNotification oid d w)) = notifications w
       \<and> emitted (snd (createNotification oid d w)) = emitted w
       \<and> published (snd (createNotification oid d w)) = published w
       \<and> fst (createNotification oid d w) =
           (if oid (recipientId d) = None then Inl (ValidationError ''Invalid recipient ID'')
            else Inr None)"
  using assms by (auto simp: createNotification_def async_defs)

text \<open>
  In the example the user \<open>a1\<close> likes their own post: nothing happens. Had \<open>b2\<close> liked it,
  one notification would have been stored.
\<close>

theorem createNotification_self_suppressed_witness:
  "recipientId dto_self = actorId dto_self
   \<and> createNotification oid0 dto_self world0 = (Inr None, world0)
   \<and> notifications (snd (createNotification oid0 (dto_self\<lparr>actorId := ''b2''\<rparr>) world0)) =
      [\<lparr>nid = 100, recipient = 1, ntype = Like, actor = 2, resource = Some (RPost, 3),
        message = ''liked your post'', isRead = False, n_createdAt = 1000\<rparr>]"
  using createNotification_self_suppressed[of dto_self oid0 world0]
  by (simp add: dto_self_def oid0_def world0_def notif_defs async_defs Let_def)

lemma sort_desc_sorted: "sorted_wrt (\<lambda>a b. f b \<le> f a) (sort_desc f xs)"
proof -
  have "sorted (map (\<lambda>x. - int (f x)) (sort_key (\<lambda>x. - int (f x)) xs))"
    by (rule sorted_sort_key)
  then show ?thesis
    by (simp add: sort_desc_def sorted_map sorted_wrt_iff_nth_less)
qed

lemma set_sort_desc [simp]: "set (sort_desc f xs) = set xs"
  by (simp add: sort_desc_def)

lemma length_sort_desc [simp]: "length (sort_desc f xs) = length xs"
  by (simp add: sort_desc_def)

lemma mset_sort_desc: "mset (sort_desc f xs) = mset xs"
  by (simp add: sort_desc_def)

text \<open>The query that \<^verbatim>\<open>getUserNotifications\<close> builds selects by recipient, read flag and type.\<close>

lemma matching_filter:
  "filter (\<lambda>n. recipient n = u
              \<and> (f_isRead f = None \<or> f_isRead f = Some (isRead n))
              \<and> (f_type f = None \<or> f_type f = Some (ntype n))) ns
   = filter (matches_filters u f) ns"
  by (rule filter_cong) (auto simp: matches_filters_def split: option.splits)

lemma getUserNotifications_invalid:
  "oid uid = None \<Longrightarrow>
     getUserNotifications oid uid f w = (Inl (ValidationError ''Invalid user ID''), w)"
  by (simp add: getUserNotifications_def reject_def)

text \<open>
  Claim C10. Call a notification matching when its recipient is the user and it agrees with
  each filter that is set (read flag, type). For a well-formed user id and every filter
  combination, \<^verbatim>\<open>getUserNotifications\<close> returns the 50 most recent matching notifications,
  newest first, and all of them when there are fewer than 50:
  its length is the smaller of 50 and the number of matching notifications; the result,
  counted with multiplicity, is part of the matching notifications of the store, so no
  record comes back twice; it is sorted by creation time, descending; and no matching
  notification that is left out is newer than a returned one. The function takes the user id
  and the filters only, so there is no parameter that selects an older page, and it leaves
  the world as it is. (A malformed user id throws, lemma \<open>getUserNotifications_invalid\<close>.)
\<close>

theorem getUserNotifications_limit:
  assumes "oid uid = Some u"
  shows "let matching = filter (\<lambda>n. recipient n = u
                                  \<and> (f_isRead f = None \<or> f_isRead f = Some (isRead n))
                                  \<and> (f_type f = None \<or> f_type f = Some (ntype n)))
                           (notifications w)
         in \<exists>ns. getUserNotifications oid uid f w = (Inr ns, w)
              \<and> length ns = min 50 (length matching)
              \<and> mset ns \<subseteq># mset matching
              \<and> sorted_wrt (\<lambda>a b. n_createdAt b \<le> n_createdAt a) ns
              \<and> (\<forall>m \<in># mset matching - mset ns. \<forall>n \<in> set ns. n_createdAt m \<le> n_createdAt n)"
proof -
  let ?ms = "filter (matches_filters u f) (notifications w)"
  let ?ys = "sort_desc n_createdAt ?ms"
  let ?ns = "take 50 ?ys"
  have 1: "getUserNotifications oid uid f w = (Inr ?ns, w)"
    using assms by (simp add: getUserNotifications_def)
  have 2: "length ?ns = min 50 (length ?ms)"
    by simp
  have split: "mset ?ms = mset ?ns + mset (drop 50 ?ys)"
    by (metis append_take_drop_id mset_append mset_sort_desc)
  then have 3: "mset ?ns \<subseteq># mset ?ms"
    by simp
  have rest: "mset ?ms - mset ?ns = mset (drop 50 ?ys)"
    using split by simp
  have s: "sorted_wrt (\<lambda>a b. n_createdAt b \<le> n_createdAt a) (?ns @ drop 50 ?ys)"
    using sort_desc_sorted[of n_createdAt ?ms] by simp
  then have 4: "sorted_wrt (\<lambda>a b. n_createdAt b \<le> n_createdAt a) ?ns"
    unfolding sorted_wrt_append by blast
  have 5: "\<forall>m \<in># mset ?ms - mset ?ns. \<forall>n \<in> set ?ns. n_createdAt m \<le> n_createdAt n"
    using s unfolding rest sorted_wrt_append by auto
  from 1 2 3 4 5 show ?thesis
    unfolding Let_def matching_filter by blast
qed

text \<open>
  Sixty notifications of one user, created at the times 0 to 59: the fifty of the times 59
  down to 10 come back.
\<close>

lemma insort_key_last:
  "\<forall>y \<in> set xs. f y < f x \<Longrightarrow> insort_key f x xs = xs @ [x]"
  by (induction xs) auto

lemma sort_desc_notif_at:
  "sort_desc n_createdAt (map notif_at [i..<k]) = map notif_at (rev [i..<k])"
proof (induction "k - i" arbitrary: i)
  case 0
  then show ?case by (simp add: sort_desc_def)
next
  case (Suc d)
  then have lt: "i < k" and d: "d = k - Suc i" by simp_all
  have "sort_desc n_createdAt (map notif_at [i..<k])
      = insort_key (\<lambda>x. - int (n_createdAt x)) (notif_at i)
          (sort_desc n_createdAt (map notif_at [Suc i..<k]))"
    using lt by (simp add: sort_desc_def upt_rec[of i k])
  also have "\<dots> = insort_key (\<lambda>x. - int (n_createdAt x)) (notif_at i)
                     (map notif_at (rev [Suc i..<k]))"
    using Suc.hyps(1)[OF d] by simp
  also have "\<dots> = map notif_at (rev [Suc i..<k]) @ [notif_at i]"
    by (rule insort_key_last) (auto simp: notif_at_def)
  also have "\<dots> = map notif_at (rev [i..<k])"
    using lt by (simp add: upt_rec[of i k])
  finally show ?case .
qed

lemma world_many_matching:
  "filter (\<lambda>n. recipient n = 1
              \<and> (f_isRead no_filters = None \<or> f_isRead no_filters = Some (isRead n))
              \<and> (f_type no_filters = None \<or> f_type no_filters = Some (ntype n)))
     (notifications world_many) = notifications world_many"
  by (simp add: world_many_def world0_def filter_map o_def no_filters_def notif_at_def)

lemma world_many_length: "length (notifications world_many) = 60"
  by (simp add: world_many_def world0_def)

lemma world_many_newest:
  "getUserNotifications oid0 ''a1'' no_filters world_many
     = (Inr (map notif_at (rev [10..<60])), world_many)"
proof -
  have "take 50 (rev [0..<60]) = rev [10..<(60::nat)]"
    by (simp add: take_rev)
  then show ?thesis
    using world_many_matching
    by (simp add: getUserNotifications_def oid0_def matching_filter[symmetric] no_filters_def
        world_many_def world0_def sort_desc_notif_at take_map del: upt_Suc)
qed

theorem getUserNotifications_limit_witness:
  "oid0 ''a1'' = Some 1
   \<and> length (notifications world_many) = 60
   \<and> getUserNotifications oid0 ''a1'' no_filters world_many
       = (Inr (map notif_at (rev [10..<60])), world_many)
   \<and> (\<exists>ns. getUserNotifications oid0 ''a1'' no_filters world_many = (Inr ns, world_many)
         \<and> length ns = 50
         \<and> mset ns \<subseteq># mset (notifications world_many))"
proof -
  have h: "oid0 ''a1'' = Some 1"
    by (simp add: oid0_def)
  have "\<exists>ns. getUserNotifications oid0 ''a1'' no_filters world_many = (Inr ns, world_many)
         \<and> length ns = min 50 (length (notifications world_many))
         \<and> mset ns \<subseteq># mset (notifications world_many)"
    using getUserNotifications_limit[of oid0 "''a1''" 1 no_filters world_many] h
    unfolding Let_def world_many_matching by blast
  then have "\<exists>ns. getUserNotifications oid0 ''a1'' no_filters world_many = (Inr ns, world_many)
         \<and> length ns = 50
         \<and> mset ns \<subseteq># mset (notifications world_many)"
    unfolding world_many_length by simp
  with h world_many_length world_many_newest show ?thesis
    by blast
qed

section \<open>Properties of likes\<close>

lemma find_set_likes:
  "find (\<lambda>p. pid p = i) (map (\<lambda>p'. if pid p' = i then p'\<lparr>likes := L\<rparr> else p') ps)
     = map_option (\<lambda>p'. p'\<lparr>likes := L\<rparr>) (find (\<lambda>p. pid p = i) ps)"
  by (induction ps) auto

lemma distinct_count_list: "distinct xs \<Longrightarrow> x \<in> set xs \<Longrightarrow> count_list xs x = 1"
  by (induction xs) auto

lemma like_once:
  assumes "oid postId = Some i" and "oid uid = Some u"
    and "find (\<lambda>p. pid p = i) (posts w) = Some p"
  shows "\<exists>w'. likePost oid postId uid w = (Inr (), w') \<and>
     find (\<lambda>p. pid p = i) (posts w')
       = Some (p\<lparr>likes := (if u \<in> set (likes p) then likes p else likes p @ [u])\<rparr>)"
proof -
  have "fst (likePost oid postId uid w) = Inr ()" and
    ps: "posts (snd (likePost oid postId uid w)) =
           (if u \<in> set (likes p) then posts w
            else map (\<lambda>p'. if pid p' = i then p'\<lparr>likes := likes p @ [u]\<rparr> else p') (posts w))"
    using likePost_store[OF assms(1) assms(3) assms(2)] by auto
  then have "likePost oid postId uid w = (Inr (), snd (likePost oid postId uid w))"
    by (metis prod.collapse)
  moreover have "find (\<lambda>p. pid p = i) (posts (snd (likePost oid postId uid w))) =
       Some (p\<lparr>likes := (if u \<in> set (likes p) then likes p else likes p @ [u])\<rparr>)"
    using ps assms(3) by (auto simp: find_set_likes)
  ultimately show ?thesis by blast
qed

lemma like_times_liked:
  assumes "oid postId = Some i" and "oid uid = Some u"
  shows "find (\<lambda>p. pid p = i) (posts w) = Some p \<Longrightarrow> u \<in> set (likes p) \<Longrightarrow>
     \<exists>w'. like_times oid postId uid n w = (Inr (), w')
        \<and> find (\<lambda>p. pid p = i) (posts w') = Some p"
proof (induction n arbitrary: w)
  case 0
  then show ?case by (simp add: resolve_def)
next
  case (Suc n)
  from like_once[OF assms Suc.prems(1)] Suc.prems(2) obtain w1 where
    1: "likePost oid postId uid w = (Inr (), w1)"
    and 2: "find (\<lambda>p. pid p = i) (posts w1) = Some p" by auto
  from Suc.IH[OF 2 Suc.prems(2)] 1 show ?case by (auto simp: await_def)
qed

lemma unlikePost_store:
  assumes "oid postId = Some i" and "find (\<lambda>p. pid p = i) (posts w) = Some p" and "oid uid = Some u"
  shows "fst (unlikePost oid postId uid w) = Inr () \<and>
         posts (snd (unlikePost oid postId uid w)) =
           map (\<lambda>p'. if pid p' = i then p'\<lparr>likes := filter (\<lambda>x. x \<noteq> u) (likes p)\<rparr> else p')
             (posts w)"
  using assms
  by (auto simp: unlikePost_def await_def Post_update_def Post_findById_def resolve_def
      split: prod.splits sum.splits)

lemma unlike_once:
  assumes "oid postId = Some i" and "oid uid = Some u"
    and "find (\<lambda>p. pid p = i) (posts w) = Some p"
  shows "\<exists>w'. unlikePost oid postId uid w = (Inr (), w') \<and>
     find (\<lambda>p. pid p = i) (posts w') = Some (p\<lparr>likes := filter (\<lambda>x. x \<noteq> u) (likes p)\<rparr>)"
proof -
  have "fst (unlikePost oid postId uid w) = Inr ()" and
    ps: "posts (snd (unlikePost oid postId uid w)) =
           map (\<lambda>p'. if pid p' = i then p'\<lparr>likes := filter (\<lambda>x. x \<noteq> u) (likes p)\<rparr> else p')
             (posts w)"
    using unlikePost_store[OF assms(1) assms(3) assms(2)] by auto
  then have "unlikePost oid postId uid w = (Inr (), snd (unlikePost oid postId uid w))"
    by (metis prod.collapse)
  moreover have "find (\<lambda>p. pid p = i) (posts (snd (unlikePost oid postId uid w))) =
       Some (p\<lparr>likes := filter (\<lambda>x. x \<noteq> u) (likes p)\<rparr>)"
    using ps assms(3) by (simp add: find_set_likes)
  ultimately show ?thesis by blast
qed

text \<open>
  A post is created with an empty like list, and \<^verbatim>\<open>likePost\<close> and \<^verbatim>\<open>unlikePost\<close> keep the
  list of every post free of duplicates.
\<close>

lemma likePost_keeps_distinct:
  assumes "\<forall>p \<in> set (posts w). distinct (likes p)"
  shows "\<forall>p \<in> set (posts (snd (likePost oid postId uid w))). distinct (likes p)"
proof (cases "\<exists>i u p. oid postId = Some i \<and> oid uid = Some u \<and> find (\<lambda>p. pid p = i) (posts w) = Some p")
  case True
  then obtain i u p where h: "oid postId = Some i" "oid uid = Some u"
    "find (\<lambda>p. pid p = i) (posts w) = Some p" by blast
  then have "p \<in> set (posts w)" by (auto simp: find_Some_iff)
  with assms have "distinct (likes p)" by blast
  with assms likePost_store[OF h(1) h(3) h(2)] show ?thesis by auto
next
  case False
  then have "posts (snd (likePost oid postId uid w)) = posts w"
    by (auto simp: likePost_def async_defs Post_findById_def split: option.splits)
  with assms show ?thesis by simp
qed

text \<open>
  Claim C5. On an existing post whose like list has no duplicates, \<open>N \<ge> 1\<close> calls of
  \<^verbatim>\<open>likePost\<close> with well-formed ids all succeed and leave the user exactly once in the like
  list; a following \<^verbatim>\<open>unlikePost\<close> succeeds and removes the user, whatever \<open>N\<close> was.
\<close>

theorem like_idempotent_unlike_removes:
  assumes "oid postId = Some i" and "oid uid = Some u"
    and "find (\<lambda>p. pid p = i) (posts w) = Some p" and "distinct (likes p)" and "1 \<le> N"
  shows "\<exists>w1 p1. like_times oid postId uid N w = (Inr (), w1)
           \<and> find (\<lambda>p. pid p = i) (posts w1) = Some p1 \<and> count_list (likes p1) u = 1
           \<and> (\<exists>w2 p2. unlikePost oid postId uid w1 = (Inr (), w2)
                  \<and> find (\<lambda>p. pid p = i) (posts w2) = Some p2 \<and> u \<notin> set (likes p2))"
proof -
  obtain n where N: "N = Suc n" using assms(5) by (cases N) auto
  let ?p1 = "p\<lparr>likes := (if u \<in> set (likes p) then likes p else likes p @ [u])\<rparr>"
  from like_once[OF assms(1-3)] obtain wa where
    a: "likePost oid postId uid w = (Inr (), wa)"
    and fa: "find (\<lambda>p. pid p = i) (posts wa) = Some ?p1" by auto
  have mem: "u \<in> set (likes ?p1)" by simp
  from like_times_liked[OF assms(1,2) fa mem, of n] obtain w1 where
    b: "like_times oid postId uid n wa = (Inr (), w1)"
    and fb: "find (\<lambda>p. pid p = i) (posts w1) = Some ?p1" by auto
  have t: "like_times oid postId uid N w = (Inr (), w1)"
    using a b N by (simp add: await_def)
  have c: "count_list (likes ?p1) u = 1"
    using assms(4) by (auto simp: distinct_count_list)
  from unlike_once[OF assms(1,2) fb] obtain w2 where
    u: "unlikePost oid postId uid w1 = (Inr (), w2)"
    and fu: "find (\<lambda>p. pid p = i) (posts w2)
               = Some (?p1\<lparr>likes := filter (\<lambda>x. x \<noteq> u) (likes ?p1)\<rparr>)" by auto
  have "u \<notin> set (likes (?p1\<lparr>likes := filter (\<lambda>x. x \<noteq> u) (likes ?p1)\<rparr>))" by simp
  with t fb c u fu show ?thesis by blast
qed

theorem like_idempotent_unlike_removes_witness:
  "oid0 ''c3'' = Some 3 \<and> oid0 ''b2'' = Some 2
   \<and> find (\<lambda>p. pid p = 3) (posts world_post) = Some post0 \<and> distinct (likes post0)
   \<and> (1::nat) \<le> 3
   \<and> (\<exists>w1 p1. like_times oid0 ''c3'' ''b2'' 3 world_post = (Inr (), w1)
           \<and> find (\<lambda>p. pid p = 3) (posts w1) = Some p1 \<and> count_list (likes p1) 2 = 1
           \<and> (\<exists>w2 p2. unlikePost oid0 ''c3'' ''b2'' w1 = (Inr (), w2)
                  \<and> find (\<lambda>p. pid p = 3) (posts w2) = Some p2 \<and> 2 \<notin> set (likes p2)))"
  using like_idempotent_unlike_removes[of oid0 "''c3''" 3 "''b2''" 2 world_post post0 3]
  by (simp add: oid0_def world_post_def world0_def post0_def)

section \<open>Properties of reading a post\<close>

lemma cache_get_hit:
  "redis_client w \<Longrightarrow> \<not> redis_down w (redis_calls w) \<Longrightarrow>
   CacheService_get key w = (Inr (lookup_live w key), w\<lparr>redis_calls := Suc (redis_calls w)\<rparr>)"
  by (auto simp: cache_defs async_defs redis_defs Let_def lookup_live_def split: option.splits)

lemma getPost_posts:
  assumes "oid postId = Some i"
  shows "posts (snd (getPost oid postId w)) = map (\<lambda>q. if pid q = i then inc_viewCount q else q) (posts w)"
  using assms
  by (auto simp: getPost_def await_def Post_findByIdAndUpdate_def Post_update_def
          Post_findById_def resolve_def reject_def
        split: prod.splits sum.splits option.splits dest!: cache_set_store cache_get_store)

lemma getPost_hit:
  assumes "oid postId = Some i" and "redis_client w" and "\<not> redis_down w (redis_calls w)"
    and "lookup_live w (CacheKeys_post postId) = Some c"
  shows "fst (getPost oid postId w) = Inr c"
  using assms
  by (auto simp: getPost_def await_def Post_findByIdAndUpdate_def Post_update_def
          Post_findById_def resolve_def cache_get_hit split: prod.splits sum.splits option.splits)

lemma getPost_miss:
  assumes "oid postId = Some i" and "redis_client w" and "\<not> redis_down w (redis_calls w)"
    and "lookup_live w (CacheKeys_post postId) = None" and "find (\<lambda>p. pid p = i) (posts w) = Some p"
  shows "fst (getPost oid postId w) = Inr (PostSnap (inc_viewCount p))"
  using assms
  by (auto simp: getPost_def await_def Post_findByIdAndUpdate_def Post_update_def
          Post_findById_def resolve_def cache_get_hit find_map_same inc_viewCount_def
       split: prod.splits sum.splits option.splits dest!: cache_set_store)

text \<open>
  Claim C9. On an existing post every \<^verbatim>\<open>getPost\<close> call increments the view count of the post
  in the store, whether the cache hits, misses or fails. On a hit the call returns the cached
  snapshot as it is, not the post it has just updated; otherwise it returns the updated post.
\<close>

theorem getPost_cache_hit_counts_view:
  assumes "oid postId = Some i" and "find (\<lambda>p. pid p = i) (posts w) = Some p"
  shows "posts (snd (getPost oid postId w))
           = map (\<lambda>q. if pid q = i then inc_viewCount q else q) (posts w)
       \<and> find (\<lambda>p. pid p = i) (posts (snd (getPost oid postId w))) = Some (inc_viewCount p)
       \<and> fst (getPost oid postId w) =
           (if redis_client w \<and> \<not> redis_down w (redis_calls w)
            then (case lookup_live w (CacheKeys_post postId) of
                    Some c \<Rightarrow> Inr c
                  | None \<Rightarrow> Inr (PostSnap (inc_viewCount p)))
            else Inr (PostSnap (inc_viewCount p)))"
proof -
  have 1: "posts (snd (getPost oid postId w)) = map (\<lambda>q. if pid q = i then inc_viewCount q else q) (posts w)"
    using assms(1) getPost_posts[of oid postId i w] by simp
  have 2: "find (\<lambda>p. pid p = i) (posts (snd (getPost oid postId w))) = Some (inc_viewCount p)"
    unfolding 1 using assms(2) by (simp add: find_map_same inc_viewCount_def)
  have 3: "fst (getPost oid postId w) =
           (if redis_client w \<and> \<not> redis_down w (redis_calls w)
            then (case lookup_live w (CacheKeys_post postId) of
                    Some c \<Rightarrow> Inr c
                  | None \<Rightarrow> Inr (PostSnap (inc_viewCount p)))
            else Inr (PostSnap (inc_viewCount p)))"
  proof (cases "redis_client w \<and> \<not> redis_down w (redis_calls w)")
    case True
    then show ?thesis
      using assms getPost_hit[of oid postId i w] getPost_miss[of oid postId i w p]
      by (auto split: option.splits)
  next
    case False
    then show ?thesis using assms getPost_degraded[of w oid postId i p] by auto
  qed
  from 1 2 3 show ?thesis by blast
qed

text \<open>
  The store has the post at seven views and the cache a snapshot with five: the call
  returns the snapshot with five views and the store goes to eight.
\<close>

theorem getPost_cache_hit_counts_view_witness:
  "oid0 ''c3'' = Some 3 \<and> find (\<lambda>p. pid p = 3) (posts world_cached) = Some post0
   \<and> fst (getPost oid0 ''c3'' world_cached) = Inr (PostSnap post0_cached)
   \<and> posts (snd (getPost oid0 ''c3'' world_cached)) = [post0\<lparr>viewCount := 8\<rparr>]
   \<and> viewCount post0_cached = 5"
  using getPost_cache_hit_counts_view[of oid0 "''c3''" 3 world_cached post0]
  by (simp add: oid0_def world_cached_def world_post_def world0_def post0_def post0_cached_def
        lookup_live_def live_def CacheKeys_post_def CachePrefix_POST_def inc_viewCount_def)

section \<open>Properties of direct chats\<close>

lemma direct_between_sym: "direct_between a b = direct_between b a"
  by (auto simp: direct_between_def fun_eq_iff)

lemma direct_between_distinct:
  "a \<noteq> b \<Longrightarrow>
     direct_between a b c =
       (ctype c = Direct \<and> (participants c = [a, b] \<or> participants c = [b, a]))"
  by (cases "participants c" rule: list.exhaust; cases "tl (participants c)" rule: list.exhaust)
     (auto simp: direct_between_def)

lemma findOne_eq: "Chat_findOne_direct a b w = (Inr (find (direct_between a b) (chats w)), w)"
  by (simp add: Chat_findOne_direct_def)

lemma goc_existing:
  assumes "userId1 \<noteq> userId2" "oid userId1 = Some a" "oid userId2 = Some b"
    "find (direct_between a b) (chats w) = Some c"
  shows "getOrCreateDirectChat oid userId1 userId2 w = (Inr c, w)"
  using assms by (simp add: getOrCreateDirectChat_def try_catch_def await_def findOne_eq resolve_def)

lemma find_append_fresh:
  "\<forall>c \<in> set cs. cid c < n \<Longrightarrow> cid x = n \<Longrightarrow> find (\<lambda>y. cid y = n) (cs @ [x]) = Some x"
  by (induction cs) auto

lemma find_append_none:
  "find P cs = None \<Longrightarrow> P x \<Longrightarrow> find P (cs @ [x]) = Some x"
  by (induction cs) (auto split: if_splits)

lemma goc_create:
  assumes "userId1 \<noteq> userId2" "oid userId1 = Some a" "oid userId2 = Some b"
    "find (direct_between a b) (chats w) = None" "\<forall>c \<in> set (chats w). cid c < next_oid w"
  shows "getOrCreateDirectChat oid userId1 userId2 w =
     (Inr \<lparr>cid = next_oid w, ctype = Direct, cname = None, participants = [a, b], lastMessage = None\<rparr>,
      w\<lparr>next_oid := Suc (next_oid w),
        chats := chats w @ [\<lparr>cid = next_oid w, ctype = Direct, cname = None, participants = [a, b], lastMessage = None\<rparr>]\<rparr>)"
  using assms
  by (simp add: getOrCreateDirectChat_def try_catch_def await_def findOne_eq resolve_def
       Chat_create_direct_def fresh_oid_def Let_def find_append_fresh)

text \<open>
  Two distinct users, each given by an id string that parses, in a store whose chat ids are
  all older than the next fresh id. The first call of \<^verbatim>\<open>getOrCreateDirectChat\<close> returns a
  direct chat of the two users and creates it only when the store had none. Every later call
  for the two users, in either order and in whatever spelling of their ids, returns that
  chat and changes nothing.
\<close>

lemma direct_chat_unique_distinct_users:
  assumes "oid userId1 = Some a" and "oid userId2 = Some b" and "a \<noteq> b"
    and "\<forall>c \<in> set (chats w). cid c < next_oid w"
  shows "\<exists>c w1. getOrCreateDirectChat oid userId1 userId2 w = (Inr c, w1)
           \<and> ctype c = Direct \<and> (participants c = [a, b] \<or> participants c = [b, a])
           \<and> (\<forall>s1 s2. oid s1 = Some a \<and> oid s2 = Some b \<longrightarrow>
                  getOrCreateDirectChat oid s1 s2 w1 = (Inr c, w1)
                  \<and> getOrCreateDirectChat oid s2 s1 w1 = (Inr c, w1))
           \<and> (if find (direct_between a b) (chats w) = None then chats w1 = chats w @ [c]
               else chats w1 = chats w)"
proof -
  have ne: "userId1 \<noteq> userId2" using assms(1-3) by auto
  have again: "getOrCreateDirectChat oid s1 s2 w1 = (Inr c, w1)
             \<and> getOrCreateDirectChat oid s2 s1 w1 = (Inr c, w1)"
    if f: "find (direct_between a b) (chats w1) = Some c" and s: "oid s1 = Some a" "oid s2 = Some b"
    for s1 s2 w1 c
  proof -
    have n: "s1 \<noteq> s2" "s2 \<noteq> s1" using s assms(3) by auto
    have f': "find (direct_between b a) (chats w1) = Some c"
      using f by (simp add: direct_between_sym[of b a])
    show ?thesis
      using goc_existing[of s1 s2 oid a b w1 c] goc_existing[of s2 s1 oid b a w1 c] n s f f'
      by simp
  qed
  show ?thesis
  proof (cases "find (direct_between a b) (chats w)")
    case (Some c)
    then have "direct_between a b c" by (auto simp: find_Some_iff)
    then have db: "ctype c = Direct \<and> (participants c = [a, b] \<or> participants c = [b, a])"
      using direct_between_distinct[OF assms(3)] by simp
    have 1: "getOrCreateDirectChat oid userId1 userId2 w = (Inr c, w)"
      using goc_existing[of userId1 userId2 oid a b w c] assms ne Some by simp
    from 1 db Some again[OF Some] show ?thesis by auto
  next
    case None
    let ?c = "\<lparr>cid = next_oid w, ctype = Direct, cname = None, participants = [a, b], lastMessage = None\<rparr>"
    let ?w1 = "w\<lparr>next_oid := Suc (next_oid w), chats := chats w @ [?c]\<rparr>"
    have db: "direct_between a b ?c" by (simp add: direct_between_def)
    have 1: "getOrCreateDirectChat oid userId1 userId2 w = (Inr ?c, ?w1)"
      using goc_create[of userId1 userId2 oid a b w] assms ne None by simp
    have f: "find (direct_between a b) (chats ?w1) = Some ?c"
      using find_append_none[OF None db] by simp
    have 2: "\<forall>s1 s2. oid s1 = Some a \<and> oid s2 = Some b \<longrightarrow>
                  getOrCreateDirectChat oid s1 s2 ?w1 = (Inr ?c, ?w1)
                  \<and> getOrCreateDirectChat oid s2 s1 ?w1 = (Inr ?c, ?w1)"
      using again[OF f] by blast
    have 3: "chats ?w1 = chats w @ [?c]" by simp
    show ?thesis
      apply (rule exI[of _ ?c], rule exI[of _ ?w1])
      using 1 2 3 None by simp
  qed
qed

lemma direct_chat_unique_example:
  "\<exists>c w1. getOrCreateDirectChat oid0 ''a1'' ''b2'' world0 = (Inr c, w1)
          \<and> getOrCreateDirectChat oid0 ''b2'' ''A1'' w1 = (Inr c, w1)
          \<and> chats w1 = [c]"
  using direct_chat_unique_distinct_users[of oid0 "''a1''" 1 "''b2''" 2 world0]
  by (auto simp: oid0_def world0_def)

text \<open>The guard of \<^verbatim>\<open>getOrCreateDirectChat\<close> rejects a call with twice the same string.\<close>

lemma getOrCreateDirectChat_same_string:
  "getOrCreateDirectChat oid s s w =
     (Inl (ValidationError ''Cannot create chat with yourself''),
      w\<lparr>logs := logs w @ [(LError, ''Failed to get or create direct chat'')]\<rparr>)"
  by (simp add: getOrCreateDirectChat_def async_defs)

text \<open>
  Claim C6. A call of \<^verbatim>\<open>getOrCreateDirectChat\<close> for one and the same user is to be rejected
  with the validation error "Cannot create chat with yourself". The guard
  \<^verbatim>\<open>userId1 === userId2\<close> compares the id strings, and one user has several spellings: the
  schema of the route accepts the hexadecimal digits in both cases
  (\<^verbatim>\<open>/^[0-9a-fA-F]{24}$/\<close>) and the store casts both spellings to the same ObjectId. The
  strings \<open>''a1''\<close> and \<open>''A1''\<close> differ and denote the user 1. Called with them on an empty
  store, the function throws nothing: it creates a direct chat whose participants are the
  user 1 twice, and a second call returns that chat. Called with \<open>''a1''\<close> twice, it throws
  the validation error.
\<close>

theorem self_chat_in_another_spelling:
  "''a1'' \<noteq> ''A1'' \<and> oid0 ''a1'' = Some 1 \<and> oid0 ''A1'' = Some 1
   \<and> getOrCreateDirectChat oid0 ''a1'' ''A1'' world0
       = (Inr self_chat, world0\<lparr>next_oid := 101, chats := [self_chat]\<rparr>)
   \<and> getOrCreateDirectChat oid0 ''a1'' ''A1'' (world0\<lparr>next_oid := 101, chats := [self_chat]\<rparr>)
       = (Inr self_chat, world0\<lparr>next_oid := 101, chats := [self_chat]\<rparr>)
   \<and> fst (getOrCreateDirectChat oid0 ''a1'' ''a1'' world0)
       = Inl (ValidationError ''Cannot create chat with yourself'')"
  by (simp add: getOrCreateDirectChat_def Chat_findOne_direct_def Chat_create_direct_def
      direct_between_def fresh_oid_def async_defs Let_def oid0_def world0_def self_chat_def)

section \<open>Properties of the chat handlers\<close>

lemmas chat_defs = sendMessage_def Chat_findById_def Message_create_def Chat_save_lastMessage_def fresh_oid_def

lemma sendMessage_frame:
  "sendMessage oid uid c body w = (r, w1) \<Longrightarrow>
     io_server w1 = io_server w \<and> published w1 = published w \<and> emitted w1 = emitted w"
  by (auto simp: chat_defs async_defs Let_def split: option.splits if_splits prod.splits sum.splits)

text \<open>
  Claim C1, amended. For every successful \<^verbatim>\<open>send_message\<close> event (authenticated sender,
  chat id present, content not blank, \<^verbatim>\<open>sendMessage\<close> resolves to the created message) on an
  instance whose Socket.IO server is up, the handler emits \<^verbatim>\<open>new_message\<close> with the created
  message to the room \<^verbatim>\<open>chat:<chatId>\<close> of this instance only, acknowledges the sender with
  the message, and publishes nothing on the bus.
\<close>

theorem send_message_emits_locally:
  assumes "truthy (sock_userId sock)" and "chatId pl \<noteq> []" and "trim (p_content pl) \<noteq> []"
    and "sendMessage oid (the (sock_userId sock)) (chatId pl) (p_content pl) w = (Inr m, w1)"
    and "io_server w"
  shows "send_message oid sock pl cb w =
           (Inr (if cb then Some (AckMessage m) else None),
            w1\<lparr>emitted := emitted w @ [(''chat:'' @ chatId pl, ''new_message'', MessageData m)]\<rparr>)
       \<and> published w1 = published w"
proof -
  have fr: "io_server w1 = io_server w \<and> published w1 = published w \<and> emitted w1 = emitted w"
    using assms(4) by (rule sendMessage_frame)
  have ne: "p_content pl \<noteq> []" using assms(3) by (auto simp: trim_def)
  show ?thesis
    using assms fr ne
    by (simp add: send_message_def try_catch_def await_def getIO_def io_to_emit_def callback_def resolve_def)
qed

text \<open>
  Claim C1 fails: the \<^verbatim>\<open>send_message\<close> handler calls \<^verbatim>\<open>io.to(room).emit\<close> on the local server
  ("emit directly to the room on this instance") and never \<^verbatim>\<open>emitToRoomAcrossInstances\<close>.
  After a successful send the bus holds no message, so an instance that receives everything
  published emits nothing to its sockets.
\<close>

theorem send_message_not_published_counterexample:
  "fst (send_message oid0 sock0 payload0 True world_chat) = Inr (Some (AckMessage msg0))
   \<and> published (snd (send_message oid0 sock0 payload0 True world_chat)) = []
   \<and> emitted (snd (send_message oid0 sock0 payload0 True world_chat)) = [(''chat:d4'', ''new_message'', MessageData msg0)]
   \<and> emitted (deliver (published (snd (send_message oid0 sock0 payload0 True world_chat))) world0) = []"
  by (simp add: send_message_def chat_defs async_defs Let_def oid0_def sock0_def payload0_def world_chat_def world0_def chat0_def
      msg0_def truthy_def trim_def is_space_def callback_def deliver_def)

text \<open>
  The \<^verbatim>\<open>typing\<close> handler of the same file does go through the bus, and the other instance
  re-emits the event to its room.
\<close>

lemma typing_pub: "published (snd (typing sock0 ''d4'' world_chat)) = [(''socket:room'', \<lparr>event = ''user_typing'', data = TypingData ''d4'' ''a1'' (Some ''a@example.com''), room = Some ''chat:d4'', ps_userId = None\<rparr>)]"
  by (simp add: typing_def emitToRoomAcrossInstances_def publishMessage_def async_defs redis_defs Let_def sock0_def world_chat_def world0_def truthy_def)

lemma typing_deliver: "emitted (deliver (published (snd (typing sock0 ''d4'' world_chat))) world0) = [(''chat:d4'', ''user_typing'', TypingData ''d4'' ''a1'' (Some ''a@example.com''))]"
  by (simp add: typing_pub deliver_def receive_def subscription_def on_room_def truthy_def async_defs
      getIO_def io_to_emit_def world0_def)


theorem send_message_emits_locally_witness:
  "truthy (sock_userId sock0) \<and> chatId payload0 \<noteq> [] \<and> trim (p_content payload0) \<noteq> []
   \<and> sendMessage oid0 (the (sock_userId sock0)) (chatId payload0) (p_content payload0) world_chat
        = (Inr msg0, world_chat\<lparr>next_oid := 101, messages := [msg0],
                                  chats := [chat0\<lparr>lastMessage := Some 100\<rparr>]\<rparr>)
   \<and> io_server world_chat
   \<and> send_message oid0 sock0 payload0 True world_chat =
        (Inr (Some (AckMessage msg0)),
         world_chat\<lparr>next_oid := 101, messages := [msg0],
                     chats := [chat0\<lparr>lastMessage := Some 100\<rparr>],
                     emitted := [(''chat:d4'', ''new_message'', MessageData msg0)]\<rparr>)"
  using send_message_emits_locally[of sock0 payload0 oid0 world_chat msg0
      "world_chat\<lparr>next_oid := 101, messages := [msg0], chats := [chat0\<lparr>lastMessage := Some 100\<rparr>]\<rparr>"
      True]
  by (simp add: chat_defs async_defs Let_def oid0_def sock0_def payload0_def world_chat_def
      world0_def chat0_def msg0_def truthy_def trim_def is_space_def)

text \<open>
  A message that consists of white space only, here a space, a no-break space and a tab, is
  refused as invalid and nothing is stored or emitted.
\<close>

lemma send_message_blank_refused:
  "send_message oid0 sock0 (payload0\<lparr>p_content := [CHR 0x20, CHR 0xA0, CHR 0x09]\<rparr>) True world_chat
     = (Inr (Some (AckError ''Invalid message data'')),
        world_chat\<lparr>logs := [(LWarn, ''Invalid send_message payload'')]\<rparr>)"
  by (simp add: send_message_def async_defs sock0_def payload0_def world_chat_def world0_def
      truthy_def trim_def is_space_def callback_def)

text \<open>A room message whose room is the empty string is dropped with a warning.\<close>

lemma on_room_empty:
  "on_room \<lparr>event = ''user_typing'', data = TypingData ''d4'' ''a1'' None, room = Some [],
             ps_userId = None\<rparr> world0
     = (Inr (), world0\<lparr>logs := [(LWarn, ''Received room message without room identifier'')]\<rparr>)"
  by (simp add: on_room_def truthy_def async_defs world0_def)

section \<open>Properties of cache invalidation on writes\<close>

lemma glob_star: "glob_match ''*'' s"
  by (induction s) auto

lemma glob_literal_star:
  "\<forall>c \<in> set p. c \<noteq> CHR ''*'' \<and> c \<noteq> CHR ''?'' \<Longrightarrow> glob_match (p @ ''*'') s = prefix p s"
proof (induction p arbitrary: s)
  case Nil
  then show ?case using glob_star by simp
next
  case (Cons a p)
  then show ?case by (cases s) auto
qed

lemma glob_postList: "glob_match postListPattern k = prefix CachePrefix_POST_LIST k"
  unfolding postListPattern_def by (rule glob_literal_star) (simp add: CachePrefix_POST_LIST_def)

lemma glob_search: "glob_match searchPattern k = prefix CachePrefix_SEARCH k"
  unfolding searchPattern_def by (rule glob_literal_star) (simp add: CachePrefix_SEARCH_def)

lemma join_prefix: "prefix x (join sep (x # xs))"
  by (cases xs) auto

lemma postList_key_prefix: "prefix CachePrefix_POST_LIST (CacheKeys_postList f pg lim)"
  unfolding CacheKeys_postList_def by (simp only: append_Cons append_Nil join_prefix)

lemma search_key_prefix: "prefix CachePrefix_SEARCH (CacheKeys_search q f sb pg)"
  unfolding CacheKeys_search_def by (simp only: append_Cons append_Nil join_prefix)

lemma lists_invalidated_lookup:
  assumes "lists_invalidated w" and "prefix CachePrefix_POST_LIST k \<or> prefix CachePrefix_SEARCH k"
  shows "lookup_live w k = None"
proof (cases "map_of (kv w) k")
  case None
  then show ?thesis by (simp add: lookup_live_def)
next
  case (Some ve)
  obtain v e where ve: "ve = (v, e)" by (cases ve)
  with Some have "(k, v, e) \<in> set (kv w)" by (auto dest: map_of_SomeD)
  with assms have "\<not> live (now w) e" by (auto simp: lists_invalidated_def list_all_iff)
  with Some ve show ?thesis by (simp add: lookup_live_def)
qed

lemma cache_get_miss:
  assumes "lookup_live w key = None"
  shows "\<exists>w1. CacheService_get key w = (Inr None, w1) \<and> posts w1 = posts w"
  using assms by (auto simp: cache_defs async_defs redis_defs Let_def lookup_live_def split: option.splits)

lemma listPosts_fresh:
  assumes "lists_invalidated w"
  shows "fst (listPosts oid f pg w) = map_sum id PageSnap (list_from_store oid f pg (posts w))"
proof -
  let ?k = "CacheKeys_postList f (pg_page pg) (pg_limit pg)"
  have "lookup_live w ?k = None"
    using assms postList_key_prefix by (intro lists_invalidated_lookup) auto
  from cache_get_miss[OF this] obtain w1 where
    g: "CacheService_get ?k w = (Inr None, w1)" and p: "posts w1 = posts w" by blast
  show ?thesis
    using g p
    by (auto simp: listPosts_def Let_def await_def resolve_def split: sum.splits prod.splits dest!: cache_set_store)
qed

lemma searchPosts_fresh:
  assumes "lists_invalidated w"
  shows "fst (searchPosts txt oid q f pg sb w) = map_sum id PageSnap (search_from_store txt oid q f pg sb (posts w))"
proof -
  let ?k = "CacheKeys_search q f sb (pg_page pg)"
  have "lookup_live w ?k = None"
    using assms search_key_prefix by (intro lists_invalidated_lookup) auto
  from cache_get_miss[OF this] obtain w1 where
    g: "CacheService_get ?k w = (Inr None, w1)" and p: "posts w1 = posts w" by blast
  show ?thesis
    using g p
    by (auto simp: searchPosts_def Let_def await_def resolve_def split: sum.splits prod.splits dest!: cache_set_store)
qed

lemma redis_accepts_mono: "redis_accepts k' w \<Longrightarrow> k \<le> k' \<Longrightarrow> redis_accepts k w"
  by (auto simp: redis_accepts_def)

lemma invalidatePattern_up:
  assumes "redis_accepts (Suc (Suc k)) w"
  shows "\<exists>w'. invalidatePattern pat w = (Inr (), w') \<and> redis_accepts k w' \<and> now w' = now w
     \<and> posts w' = posts w \<and> comments w' = comments w
     \<and> set (kv w') \<subseteq> set (kv w)
     \<and> (\<forall>k v e. (k, v, e) \<in> set (kv w') \<longrightarrow> \<not> (live (now w) e \<and> glob_match pat k))"
  using assms
  apply (auto simp: redis_accepts_def cache_defs async_defs redis_defs Let_def split: if_splits)
   apply (force simp: image_iff)
  apply (auto simp: filter_empty_conv)
  done

lemma cache_delete_up:
  assumes "redis_accepts (Suc k) w"
  shows "\<exists>w'. CacheService_delete key w = (Inr (), w') \<and> redis_accepts k w' \<and> now w' = now w
     \<and> posts w' = posts w \<and> comments w' = comments w \<and> set (kv w') \<subseteq> set (kv w)
     \<and> no_key key w'"
  using assms
  by (auto simp: redis_accepts_def no_key_def cache_defs async_defs redis_defs Let_def
      split: if_splits)

lemma no_key_lookup: "no_key k w \<Longrightarrow> lookup_live w k = None"
proof -
  assume "no_key k w"
  then have "map_of (kv w) k = None" by (simp add: no_key_def map_of_eq_None_iff)
  then show ?thesis by (simp add: lookup_live_def)
qed

lemma no_key_subset: "no_key k w \<Longrightarrow> set (kv w') \<subseteq> set (kv w) \<Longrightarrow> no_key k w'"
  by (auto simp: no_key_def)

lemma invalidatePostCaches_up:
  assumes "redis_accepts 5 w"
  shows "\<exists>w'. invalidatePostCaches po w = (Inr (), w') \<and> posts w' = posts w \<and> comments w' = comments w
     \<and> lists_invalidated w'
     \<and> (truthy po \<longrightarrow> lookup_live w' (CacheKeys_post (the po)) = None)"
proof -
  let ?A = "if truthy po then CacheService_delete (CacheKeys_post (the po)) else resolve ()"
  have five: "redis_accepts (Suc 4) w" using assms by (simp add: eval_nat_numeral)
  have "\<exists>w1. ?A w = (Inr (), w1) \<and> redis_accepts 4 w1 \<and> now w1 = now w \<and> posts w1 = posts w
      \<and> comments w1 = comments w \<and> (truthy po \<longrightarrow> no_key (CacheKeys_post (the po)) w1)"
  proof (cases "truthy po")
    case True
    then show ?thesis using cache_delete_up[OF five, of "CacheKeys_post (the po)"] by auto
  next
    case False
    then show ?thesis using redis_accepts_mono[OF assms, of 4] by (simp add: resolve_def)
  qed
  then obtain w1 where a: "?A w = (Inr (), w1)" and u1': "redis_accepts 4 w1" and n1: "now w1 = now w"
    and p1: "posts w1 = posts w" and c1: "comments w1 = comments w"
    and k1: "truthy po \<longrightarrow> no_key (CacheKeys_post (the po)) w1"
    by blast
  have u1: "redis_accepts (Suc (Suc 2)) w1" using u1' by (simp add: eval_nat_numeral)
  from invalidatePattern_up[OF u1, of postListPattern] obtain w2 where
    b: "invalidatePattern postListPattern w1 = (Inr (), w2)" and u2': "redis_accepts 2 w2"
    and n2: "now w2 = now w1" and p2: "posts w2 = posts w1" and c2: "comments w2 = comments w1"
    and s2: "set (kv w2) \<subseteq> set (kv w1)"
    and m2: "\<forall>k v e. (k, v, e) \<in> set (kv w2) \<longrightarrow> \<not> (live (now w1) e \<and> glob_match postListPattern k)"
    by blast
  have u2: "redis_accepts (Suc (Suc 0)) w2" using u2' by (simp add: eval_nat_numeral)
  from invalidatePattern_up[OF u2, of searchPattern] obtain w3 where
    c: "invalidatePattern searchPattern w2 = (Inr (), w3)"
    and n3: "now w3 = now w2" and p3: "posts w3 = posts w2" and c3: "comments w3 = comments w2"
    and s3: "set (kv w3) \<subseteq> set (kv w2)"
    and m3: "\<forall>k v e. (k, v, e) \<in> set (kv w3) \<longrightarrow> \<not> (live (now w2) e \<and> glob_match searchPattern k)"
    by blast
  have r: "invalidatePostCaches po w = (Inr (), w3)"
    using a b c by (simp add: invalidatePostCaches_def try_catch_def await_def)
  have li: "lists_invalidated w3"
    unfolding lists_invalidated_def list_all_iff
  proof (intro ballI)
    fix x assume x: "x \<in> set (kv w3)"
    obtain k v e where xe: "x = (k, v, e)" by (cases x)
    from x xe s3 have "(k, v, e) \<in> set (kv w2)" by auto
    with m2 have "\<not> (live (now w1) e \<and> prefix CachePrefix_POST_LIST k)" by (simp add: glob_postList)
    moreover from x xe m3 have "\<not> (live (now w2) e \<and> prefix CachePrefix_SEARCH k)" by (simp add: glob_search)
    ultimately show "case x of (k, v, e) \<Rightarrow> \<not> (live (now w3) e \<and> (prefix CachePrefix_POST_LIST k \<or> prefix CachePrefix_SEARCH k))"
      using xe n2 n3 by auto
  qed
  have "truthy po \<longrightarrow> lookup_live w3 (CacheKeys_post (the po)) = None"
    using k1 s2 s3 by (auto intro!: no_key_lookup no_key_subset[of _ w1 w3])
  with r li p1 p2 p3 c1 c2 c3 show ?thesis by simp
qed

lemma redis_accepts_store [simp]:
  "redis_accepts k (w\<lparr>posts := ps\<rparr>) = redis_accepts k w"
  "redis_accepts k (w\<lparr>comments := cs\<rparr>) = redis_accepts k w"
  "redis_accepts k (w\<lparr>next_oid := n\<rparr>) = redis_accepts k w"
  by (simp_all add: redis_accepts_def)

lemma ipc_up_fst: "fst (invalidatePostCaches po w) = Inr ()" by simp

lemma ipc_up_lists: "redis_accepts 5 w \<Longrightarrow> lists_invalidated (snd (invalidatePostCaches po w))"
  using invalidatePostCaches_up[of w po] by auto

lemma ipc_up_key: "redis_accepts 5 w \<Longrightarrow> truthy po \<Longrightarrow> lookup_live (snd (invalidatePostCaches po w)) (CacheKeys_post (the po)) = None"
  using invalidatePostCaches_up[of w po] by auto

lemma await_ipc: "await (invalidatePostCaches po) f w = f () (snd (invalidatePostCaches po w))"
  by (cases "invalidatePostCaches po w") (auto simp: await_def dest: invalidatePostCaches_store)

lemma await_findById: "await (Post_findById i) f w = f (find (\<lambda>p. pid p = i) (posts w)) w"
  by (simp add: await_def Post_findById_def)

lemma await_update:
  "await (Post_update i g) f w = f () (w\<lparr>posts := map (\<lambda>p. if pid p = i then g p else p) (posts w)\<rparr>)"
  by (simp add: await_def Post_update_def)

lemma await_findByIdAndUpdate:
  "await (Post_findByIdAndUpdate i g) f w =
     f (find (\<lambda>p. pid p = i) (map (\<lambda>p. if pid p = i then g p else p) (posts w)))
       (w\<lparr>posts := map (\<lambda>p. if pid p = i then g p else p) (posts w)\<rparr>)"
  by (simp add: Post_findByIdAndUpdate_def await_def Post_update_def Post_findById_def)

lemmas await_post = await_ipc await_findById await_update await_findByIdAndUpdate

lemma likePost_invalidates:
  assumes "redis_accepts 5 w" and "fst (likePost oid postId uid w) = Inr ()"
  shows "snd (likePost oid postId uid w) = w \<or>
     (lists_invalidated (snd (likePost oid postId uid w)) \<and>
      (postId \<noteq> [] \<longrightarrow> lookup_live (snd (likePost oid postId uid w)) (CacheKeys_post postId) = None))"
  using assms ipc_up_key[of _ "Some postId"]
  by (auto simp: likePost_def await_post resolve_def reject_def truthy_def ipc_up_lists
      split: option.splits if_splits)

lemma unlikePost_invalidates:
  assumes "redis_accepts 5 w" and "fst (unlikePost oid postId uid w) = Inr ()"
  shows "lists_invalidated (snd (unlikePost oid postId uid w)) \<and>
      (postId \<noteq> [] \<longrightarrow> lookup_live (snd (unlikePost oid postId uid w)) (CacheKeys_post postId) = None)"
  using assms ipc_up_key[of _ "Some postId"]
  by (auto simp: unlikePost_def await_post resolve_def reject_def truthy_def ipc_up_lists
      split: option.splits if_splits)

lemma bookmarkPost_invalidates:
  assumes "redis_accepts 5 w" and "fst (bookmarkPost oid postId uid w) = Inr ()"
  shows "snd (bookmarkPost oid postId uid w) = w \<or>
     (lists_invalidated (snd (bookmarkPost oid postId uid w)) \<and>
      (postId \<noteq> [] \<longrightarrow> lookup_live (snd (bookmarkPost oid postId uid w)) (CacheKeys_post postId) = None))"
  using assms ipc_up_key[of _ "Some postId"]
  by (auto simp: bookmarkPost_def await_post resolve_def reject_def truthy_def ipc_up_lists
      split: option.splits if_splits)

lemma unbookmarkPost_invalidates:
  assumes "redis_accepts 5 w" and "fst (unbookmarkPost oid postId uid w) = Inr ()"
  shows "lists_invalidated (snd (unbookmarkPost oid postId uid w)) \<and>
      (postId \<noteq> [] \<longrightarrow> lookup_live (snd (unbookmarkPost oid postId uid w)) (CacheKeys_post postId) = None)"
  using assms ipc_up_key[of _ "Some postId"]
  by (auto simp: unbookmarkPost_def await_post resolve_def reject_def truthy_def ipc_up_lists
      split: option.splits if_splits)

lemma Post_save_up:
  "Post_save oid uid d w = (r, w') \<Longrightarrow> redis_accepts k w' = redis_accepts k w"
  by (auto simp: Post_save_def await_def fresh_oid_def new_Date_def reject_def Let_def
      split: option.splits if_splits)

lemma createPost_invalidates:
  assumes "redis_accepts 5 w" and "fst (createPost oid uid d w) = Inr p"
  shows "lists_invalidated (snd (createPost oid uid d w))"
proof (cases "Post_save oid uid d w")
  case (Pair r w1)
  show ?thesis
  proof (cases r)
    case (Inl e)
    with Pair assms(2) show ?thesis by (simp add: createPost_def await_def)
  next
    case (Inr q)
    have "redis_accepts 5 w1" using Post_save_up[OF Pair] assms(1) by simp
    then show ?thesis
      using Pair Inr by (simp add: createPost_def await_def[of "Post_save oid uid d"] await_ipc resolve_def ipc_up_lists)
  qed
qed

lemma Comment_save_up:
  "Comment_save oid uid i body parent w = (r, w') \<Longrightarrow> redis_accepts k w' = redis_accepts k w"
  by (auto simp: Comment_save_def await_def fresh_oid_def new_Date_def reject_def Let_def
      split: option.splits if_splits)

lemma check_parent_same:
  "check_parent oid hex postId parent w = (r, w') \<Longrightarrow> w' = w"
  by (auto simp: check_parent_def reject_def resolve_def split: option.splits if_splits)

lemma addComment_invalidates:
  assumes "redis_accepts 5 w" and "fst (addComment oid hex postId uid cd w) = Inr c"
  shows "lists_invalidated (snd (addComment oid hex postId uid cd w)) \<and>
      (postId \<noteq> [] \<longrightarrow> lookup_live (snd (addComment oid hex postId uid cd w)) (CacheKeys_post postId) = None)"
proof (cases "oid postId")
  case None
  with assms(2) show ?thesis by (simp add: addComment_def reject_def)
next
  case (Some i)
  show ?thesis
  proof (cases "find (\<lambda>p. pid p = i) (posts w)")
    case None
    with Some assms(2) show ?thesis by (simp add: addComment_def await_post reject_def)
  next
    case found: (Some p)
    obtain r1 w1 where cp: "check_parent oid hex postId (cdto_parentComment cd) w = (r1, w1)"
      by (cases "check_parent oid hex postId (cdto_parentComment cd) w")
    then have w1: "w1 = w" by (rule check_parent_same)
    show ?thesis
    proof (cases r1)
      case (Inl e)
      with Some found cp assms(2) show ?thesis
        by (simp add: addComment_def await_post await_def[of "check_parent oid hex postId (cdto_parentComment cd)"])
    next
      case parent: (Inr par)
      obtain r2 w2 where cs: "Comment_save oid uid i (cdto_content cd) par w = (r2, w2)"
        by (cases "Comment_save oid uid i (cdto_content cd) par w")
      then have up2: "redis_accepts 5 w2" using Comment_save_up[OF cs] assms(1) by simp
      show ?thesis
      proof (cases r2)
        case (Inl e)
        with Some found cp w1 parent cs assms(2) show ?thesis
          by (simp add: addComment_def await_post
                await_def[of "check_parent oid hex postId (cdto_parentComment cd)"]
                await_def[of "Comment_save oid uid i (cdto_content cd) par"])
      next
        case (Inr cm)
        let ?w3 = "w2\<lparr>posts := map (\<lambda>p. if pid p = i then inc_commentCount p else p) (posts w2)\<rparr>"
        have e: "addComment oid hex postId uid cd w =
                   (Inr cm, snd (invalidatePostCaches (Some postId) ?w3))"
          using Some found cp w1 parent cs Inr
          by (simp add: addComment_def await_post resolve_def
                await_def[of "check_parent oid hex postId (cdto_parentComment cd)"]
                await_def[of "Comment_save oid uid i (cdto_content cd) par"])
        have "redis_accepts 5 ?w3" using up2 by simp
        then show ?thesis
          unfolding e using ipc_up_lists[of ?w3 "Some postId"] ipc_up_key[of ?w3 "Some postId"]
          by (simp add: truthy_def)
      qed
    qed
  qed
qed

lemma invalidatePattern_nothing:
  assumes "redis_accepts 5 w" and "fst (redis_scan pat w) = []"
  shows "invalidatePattern pat w = (Inr (), w\<lparr>redis_calls := Suc (redis_calls w)\<rparr>)"
  using assms
  by (auto simp: redis_accepts_def cache_defs async_defs redis_defs Let_def)


lemma key0: "CacheKeys_postList all_posts (Suc 0) 10 = ''post:list:page:1:limit:10''"
  by (simp add: CacheKeys_postList_def all_posts_def truthy_def has_tags_def CachePrefix_POST_LIST_def)

lemma flaky_first_read: "listPosts oid0 all_posts first_page world_flaky =
   (Inr (PageSnap page_one_post), world_flaky\<lparr>redis_calls := 2, kv := [(''post:list:page:1:limit:10'', PageSnap page_one_post, Some 1120)]\<rparr>)"
  by (simp add: listPosts_def first_page_def key0[unfolded all_posts_def] world_flaky_def world_post_def world0_def
      cache_defs async_defs redis_defs Let_def lookup_live_def list_from_store_def list_query_def
      all_posts_def truthy_def has_tags_def post0_def page_of_def sort_desc_def page_one_post_def CacheTTL_POSTS_def)


lemma after_first_read_eq: "after_first_read = world_flaky\<lparr>redis_calls := 2, kv := [(''post:list:page:1:limit:10'', PageSnap page_one_post, Some 1120)]\<rparr>"
  by (simp add: after_first_read_def flaky_first_read)

lemma flaky_write: "createPost oid0 ''a1'' dto_second after_first_read = (Inr post1,
     after_first_read\<lparr>redis_calls := 4, next_oid := 101, posts := [post0, post1],
        logs := [(LError, ''Cache invalidate pattern error (graceful degradation):''), (LError, ''Cache invalidate pattern error (graceful degradation):'')]\<rparr>)"
  by (simp add: after_first_read_eq createPost_def Post_save_def dto_second_def oid0_def trim_def is_space_def
       world_flaky_def world_post_def world0_def invalidatePostCaches_def truthy_def
      cache_defs async_defs redis_defs Let_def fresh_oid_def post1_def)

lemma after_write_eq: "after_write = world_flaky\<lparr>redis_calls := 4, next_oid := 101, posts := [post0, post1],
        kv := [(''post:list:page:1:limit:10'', PageSnap page_one_post, Some 1120)],
        logs := [(LError, ''Cache invalidate pattern error (graceful degradation):''), (LError, ''Cache invalidate pattern error (graceful degradation):'')]\<rparr>"
  by (simp add: after_write_def flaky_write) (simp add: after_first_read_eq)

lemma flaky_second_read: "fst (listPosts oid0 all_posts first_page after_write) = Inr (PageSnap page_one_post)"
  by (simp add: after_write_eq listPosts_def first_page_def key0[unfolded all_posts_def] world_flaky_def world_post_def world0_def
      cache_defs async_defs redis_defs Let_def lookup_live_def live_def all_posts_def)

lemma flaky_store: "list_from_store oid0 all_posts first_page (posts after_write) =
    Inr page_two_posts"
  by (simp add: after_write_eq list_from_store_def list_query_def all_posts_def truthy_def has_tags_def first_page_def
     page_of_def sort_desc_def post0_def post1_def page_two_posts_def)

text \<open>
  Claim C4 fails when Redis rejects the commands of the invalidation: \<^verbatim>\<open>invalidatePattern\<close>
  and \<^verbatim>\<open>delete\<close> swallow the error ("cache invalidation failures shouldn't break the
  operation"), the write still succeeds, and the entry survives. In the scenario the first
  read caches a page with one post, the write adds a second post while the two \<^verbatim>\<open>SCAN\<close>s are
  rejected, and the second read returns the cached page with one post although the store
  would give two.
\<close>

theorem stale_list_after_failed_invalidation_counterexample:
  "fst (listPosts oid0 all_posts first_page world_flaky) = Inr (PageSnap page_one_post)
   \<and> fst (createPost oid0 ''a1'' dto_second after_first_read) = Inr post1
   \<and> posts after_write = [post0, post1]
   \<and> list_from_store oid0 all_posts first_page (posts after_write) = Inr page_two_posts
   \<and> fst (listPosts oid0 all_posts first_page after_write) = Inr (PageSnap page_one_post)"
  by (simp add: flaky_first_read flaky_write flaky_second_read flaky_store) (simp add: after_write_eq)

text \<open>
  Claim C4, amended. Provided the Redis client exists and Redis accepts the (at most five)
  commands of the invalidation, every successful write (create post, like, unlike, bookmark, unbookmark, add
  comment) either changes nothing (a repeated like or bookmark) or returns with no live
  post-list or search key left in the cache and, for a non-empty post id, no live entry
  under the key of that post. In a cache without live list and search keys, \<^verbatim>\<open>listPosts\<close> and
  \<^verbatim>\<open>searchPosts\<close> return what the store gives, for every filter, page and sort order, so the
  read after the write does not return the page cached before it. A pattern that matches no
  key makes \<^verbatim>\<open>invalidatePattern\<close> resolve after the scan, with nothing deleted and nothing
  logged.
\<close>

theorem writes_invalidate_list_caches:
  assumes "redis_accepts 5 w"
  shows "(\<forall>p. fst (createPost oid uid d w) = Inr p \<longrightarrow>
            lists_invalidated (snd (createPost oid uid d w)))
       \<and> (fst (likePost oid postId uid w) = Inr () \<longrightarrow>
            snd (likePost oid postId uid w) = w
            \<or> (lists_invalidated (snd (likePost oid postId uid w))
               \<and> (postId \<noteq> [] \<longrightarrow>
                    lookup_live (snd (likePost oid postId uid w)) (CacheKeys_post postId) = None)))
       \<and> (fst (unlikePost oid postId uid w) = Inr () \<longrightarrow>
            lists_invalidated (snd (unlikePost oid postId uid w))
            \<and> (postId \<noteq> [] \<longrightarrow>
                 lookup_live (snd (unlikePost oid postId uid w)) (CacheKeys_post postId) = None))
       \<and> (fst (bookmarkPost oid postId uid w) = Inr () \<longrightarrow>
            snd (bookmarkPost oid postId uid w) = w
            \<or> (lists_invalidated (snd (bookmarkPost oid postId uid w))
               \<and> (postId \<noteq> [] \<longrightarrow>
                    lookup_live (snd (bookmarkPost oid postId uid w)) (CacheKeys_post postId) = None)))
       \<and> (fst (unbookmarkPost oid postId uid w) = Inr () \<longrightarrow>
            lists_invalidated (snd (unbookmarkPost oid postId uid w))
            \<and> (postId \<noteq> [] \<longrightarrow>
                 lookup_live (snd (unbookmarkPost oid postId uid w)) (CacheKeys_post postId) = None))
       \<and> (\<forall>c. fst (addComment oid hex postId uid cd w) = Inr c \<longrightarrow>
            lists_invalidated (snd (addComment oid hex postId uid cd w))
            \<and> (postId \<noteq> [] \<longrightarrow>
                 lookup_live (snd (addComment oid hex postId uid cd w)) (CacheKeys_post postId) = None))
       \<and> (lists_invalidated v \<longrightarrow>
            fst (listPosts oid f pg v) = map_sum id PageSnap (list_from_store oid f pg (posts v))
            \<and> fst (searchPosts txt oid q f pg sb v)
                = map_sum id PageSnap (search_from_store txt oid q f pg sb (posts v)))
       \<and> (fst (redis_scan pat w) = [] \<longrightarrow>
            invalidatePattern pat w = (Inr (), w\<lparr>redis_calls := Suc (redis_calls w)\<rparr>))"
  using assms createPost_invalidates[of w oid uid d] likePost_invalidates[of w oid postId uid]
    unlikePost_invalidates[of w oid postId uid] bookmarkPost_invalidates[of w oid postId uid]
    unbookmarkPost_invalidates[of w oid postId uid] addComment_invalidates[of w oid hex postId uid "cd"]
    listPosts_fresh[of v oid f pg] searchPosts_fresh[of v "txt" oid q f pg sb]
    invalidatePattern_nothing[of w pat]
  by blast

lemma healthy_read_eq:
  "healthy_read = world_post\<lparr>redis_calls := 2,
      kv := [(''post:list:page:1:limit:10'', PageSnap page_one_post, Some 1120)]\<rparr>"
  by (simp add: healthy_read_def listPosts_def first_page_def key0[unfolded all_posts_def]
      world_post_def world0_def cache_defs async_defs redis_defs Let_def lookup_live_def
      list_from_store_def list_query_def all_posts_def truthy_def has_tags_def post0_def page_of_def
      sort_desc_def page_one_post_def CacheTTL_POSTS_def)

lemma healthy_up: "redis_accepts 5 healthy_read"
  by (simp add: healthy_read_eq redis_accepts_def world_post_def world0_def)

lemma healthy_write:
  "createPost oid0 ''a1'' dto_second healthy_read =
     (Inr post1, world_post\<lparr>redis_calls := 5, next_oid := 101, posts := [post0, post1], kv := []\<rparr>)"
  by (simp add: healthy_read_eq createPost_def Post_save_def dto_second_def oid0_def trim_def is_space_def
       world_post_def world0_def invalidatePostCaches_def truthy_def
      cache_defs async_defs redis_defs Let_def fresh_oid_def post1_def live_def
      postListPattern_def searchPattern_def CachePrefix_POST_LIST_def CachePrefix_SEARCH_def)

text \<open>
  The same scenario with Redis up: the first read caches the page with one post, the write
  empties the cache, and the second read returns the page with both posts.
\<close>

theorem writes_invalidate_list_caches_witness:
  "redis_accepts 5 healthy_read
   \<and> lookup_live healthy_read ''post:list:page:1:limit:10'' = Some (PageSnap page_one_post)
   \<and> fst (createPost oid0 ''a1'' dto_second healthy_read) = Inr post1
   \<and> lists_invalidated (snd (createPost oid0 ''a1'' dto_second healthy_read))
   \<and> fst (listPosts oid0 all_posts first_page (snd (createPost oid0 ''a1'' dto_second healthy_read)))
       = Inr (PageSnap page_two_posts)"
  using writes_invalidate_list_caches[of healthy_read oid0 "''a1''" dto_second "''c3''" show_nat "\<lparr>cdto_content = ''x'', cdto_parentComment = None\<rparr>"
      "snd (createPost oid0 ''a1'' dto_second healthy_read)" all_posts first_page "\<lambda>q p. None" "''''" ByDate "''*''"]
    healthy_up
  by (simp add: healthy_write) (simp add: healthy_read_eq lookup_live_def live_def world_post_def world0_def
       list_from_store_def list_query_def all_posts_def truthy_def has_tags_def first_page_def
     page_of_def sort_desc_def post0_def post1_def page_two_posts_def)

end
